theory Spec2Isabelle
  imports Complex_Main "HOL-Library.Word"
begin

section \<open>Frames\<close>

text \<open>
  A frame is a grid of pixels: a list of rows, each row a list of pixels, each pixel the
  list of its channel values. Intensities are unsigned 8-bit. A colour frame from the
  decoder has three channels in the order blue, green, red; a grayscale frame has one.
\<close>

type_synonym u8 = "8 word"
type_synonym image = "u8 list list list"

definition img_height :: "'a list list list \<Rightarrow> nat" where
  "img_height img = length img"

definition img_width :: "'a list list list \<Rightarrow> nat" where
  "img_width img = (case img of [] \<Rightarrow> 0 | r # _ \<Rightarrow> length r)"

definition img_channels :: "'a list list list \<Rightarrow> nat" where
  "img_channels img = (case img of [] \<Rightarrow> 0 | r # _ \<Rightarrow> (case r of [] \<Rightarrow> 0 | p # _ \<Rightarrow> length p))"

text \<open>A well-formed frame is rectangular and not empty, as every array handed out by
  the decoder is.\<close>

definition wf_image :: "'a list list list \<Rightarrow> bool" where
  "wf_image img \<longleftrightarrow>
     0 < img_height img \<and> 0 < img_width img \<and> 0 < img_channels img \<and>
     list_all (\<lambda>r. length r = img_width img \<and>
                    list_all (\<lambda>p. length p = img_channels img) r) img"

definition px :: "'a list list list \<Rightarrow> nat \<Rightarrow> nat \<Rightarrow> nat \<Rightarrow> 'a" where
  "px img y x k = img ! y ! x ! k"

definition build :: "nat \<Rightarrow> nat \<Rightarrow> nat \<Rightarrow> (nat \<Rightarrow> nat \<Rightarrow> nat \<Rightarrow> 'a) \<Rightarrow> 'a list list list" where
  "build h w c f = map (\<lambda>y. map (\<lambda>x. map (\<lambda>k. f y x k) [0..<c]) [0..<w]) [0..<h]"

definition constant_image :: "nat \<Rightarrow> nat \<Rightarrow> nat \<Rightarrow> 'a \<Rightarrow> 'a list list list" where
  "constant_image h w c v = replicate h (replicate w (replicate c v))"

definition sat8 :: "int \<Rightarrow> u8" where
  "sat8 v = word_of_int (max 0 (min 255 v))"

section \<open>The image library\<close>

text \<open>
  The program computes every transform with calls into the OpenCV library. The functions
  of this section follow the library's documented behaviour for the arguments the
  program passes: which inputs are rejected, the shape of the result, and the value of
  each pixel. Where the library works in floating point (interpolation weights, hue)
  the documented formula is evaluated over the rationals.
\<close>

datatype error = CvError string | KeyError string | ZeroDivisionError

subsection \<open>Border extrapolation\<close>

definition border_replicate :: "nat \<Rightarrow> int \<Rightarrow> nat" where
  "border_replicate n i = nat (max 0 (min (int n - 1) i))"

definition border_reflect101 :: "nat \<Rightarrow> int \<Rightarrow> nat" where
  "border_reflect101 n i =
     (if n \<le> 1 then 0
      else let p = 2 * (int n - 1); m = i mod p
           in nat (if m < int n then m else p - m))"

subsection \<open>resize, bicubic\<close>

definition cubic_coeffs :: "rat \<Rightarrow> int list" where
  "cubic_coeffs t =
     (let A = - 3 / 4;
          c0 = ((A * (t + 1) - 5 * A) * (t + 1) + 8 * A) * (t + 1) - 4 * A;
          c1 = ((A + 2) * t - (A + 3)) * t * t + 1;
          c2 = ((A + 2) * (1 - t) - (A + 3)) * (1 - t) * (1 - t) + 1;
          c3 = 1 - c0 - c1 - c2
      in map (\<lambda>c. round (c * 2048)) [c0, c1, c2, c3])"

definition cubic_taps :: "nat \<Rightarrow> nat \<Rightarrow> nat \<Rightarrow> int \<times> int list" where
  "cubic_taps ssize dsize d =
     (let f = (of_nat (2 * d + 1) * of_nat ssize) / of_nat (2 * dsize) - 1 / 2;
          s = \<lfloor>f\<rfloor>
      in (s, cubic_coeffs (f - of_int s)))"

definition resize_cubic :: "image \<Rightarrow> nat \<Rightarrow> nat \<Rightarrow> image" where
  "resize_cubic src dw dh =
     (let sh = img_height src; sw = img_width src
      in build dh dw (img_channels src) (\<lambda>y x k.
           let (sy, b) = cubic_taps sh dh y; (sx, a) = cubic_taps sw dw x
           in sat8 (((\<Sum>j\<leftarrow>[0..<4]. \<Sum>i\<leftarrow>[0..<4].
                        b ! j * a ! i *
                        uint (px src (border_replicate sh (sy + int j - 1))
                                     (border_replicate sw (sx + int i - 1)) k))
                     + 2 ^ 21) div 2 ^ 22)))"

text \<open>\<^verbatim>\<open>cv2.resize(src, dsize, fx=0, fy=0, interpolation=cv2.INTER_CUBIC)\<close>: an empty source
  or an empty target size is rejected; a source already of the target size is copied.\<close>

definition resize :: "image \<Rightarrow> nat \<times> nat \<Rightarrow> error + image" where
  "resize src dsize =
     (let (dw, dh) = dsize
      in if img_height src = 0 \<or> img_width src = 0 then Inl (CvError ''!ssize.empty()'')
         else if dw = 0 \<or> dh = 0 then Inl (CvError ''!dsize.empty()'')
         else if (img_width src, img_height src) = (dw, dh) then Inr src
         else Inr (resize_cubic src dw dh))"

subsection \<open>cvtColor\<close>

datatype color_code = COLOR_BGR2GRAY | COLOR_BGR2HLS | COLOR_BGR2HSV

definition bgr2gray :: "u8 list \<Rightarrow> u8 list" where
  "bgr2gray p =
     [sat8 ((3735 * uint (p ! 0) + 19235 * uint (p ! 1) + 9798 * uint (p ! 2) + 2 ^ 14)
            div 2 ^ 15)]"

definition hue :: "int \<Rightarrow> int \<Rightarrow> int \<Rightarrow> rat" where
  "hue b g r =
     (let v = max r (max g b); d = v - min r (min g b)
      in if d = 0 then 0
         else let h = (if v = r then 60 * of_int (g - b) / of_int d
                       else if v = g then 120 + 60 * of_int (b - r) / of_int d
                       else 240 + 60 * of_int (r - g) / of_int d)
              in if h < 0 then h + 360 else h)"

definition bgr2hsv :: "u8 list \<Rightarrow> u8 list" where
  "bgr2hsv p =
     (let b = uint (p ! 0); g = uint (p ! 1); r = uint (p ! 2);
          v = max r (max g b); d = v - min r (min g b)
      in [sat8 (round (hue b g r / 2)),
          sat8 (if v = 0 then 0 else round (255 * of_int d / (of_int v :: rat))),
          sat8 v])"

definition bgr2hls :: "u8 list \<Rightarrow> u8 list" where
  "bgr2hls p =
     (let b = uint (p ! 0); g = uint (p ! 1); r = uint (p ! 2);
          s = max r (max g b) + min r (min g b);
          d = max r (max g b) - min r (min g b)
      in [sat8 (round (hue b g r / 2)),
          sat8 (round (of_int s / (2 :: rat))),
          sat8 (if d = 0 then 0
                else if s < 255 then round (255 * of_int d / (of_int s :: rat))
                else round (255 * of_int d / (of_int (510 - s) :: rat)))])"

fun convert_pixel :: "color_code \<Rightarrow> u8 list \<Rightarrow> u8 list" where
  "convert_pixel COLOR_BGR2GRAY = bgr2gray"
| "convert_pixel COLOR_BGR2HLS = bgr2hls"
| "convert_pixel COLOR_BGR2HSV = bgr2hsv"

text \<open>\<^verbatim>\<open>cv2.cvtColor(src, code)\<close> for the three codes the program uses. Each of them takes
  a source of three or four channels and rejects any other channel count.\<close>

definition cvtColor :: "image \<Rightarrow> color_code \<Rightarrow> error + image" where
  "cvtColor src code =
     (if img_height src = 0 \<or> img_width src = 0 then Inl (CvError ''!_src.empty()'')
      else if img_channels src \<noteq> 3 \<and> img_channels src \<noteq> 4
        then Inl (CvError ''Invalid number of channels in input image'')
      else Inr (map (map (convert_pixel code)) src))"

subsection \<open>adaptiveThreshold\<close>

datatype thresh_type = THRESH_BINARY | THRESH_BINARY_INV

text \<open>The mean of the \<open>blockSize \<times> blockSize\<close> neighbourhood of a pixel, the border
  replicated, rounded to an 8-bit value.\<close>

definition box_mean :: "image \<Rightarrow> nat \<Rightarrow> nat \<Rightarrow> nat \<Rightarrow> int" where
  "box_mean src blockSize y x =
     (let r = int (blockSize div 2); n = int (blockSize * blockSize);
          s = (\<Sum>j\<leftarrow>[0..<blockSize]. \<Sum>i\<leftarrow>[0..<blockSize].
                 uint (px src (border_replicate (img_height src) (int y + int j - r))
                              (border_replicate (img_width src) (int x + int i - r)) 0))
      in (2 * s + n) div (2 * n))"

text \<open>\<^verbatim>\<open>cv2.adaptiveThreshold(src, maxValue, cv2.ADAPTIVE_THRESH_MEAN_C, thresholdType,
  blockSize, C)\<close>. The threshold of a pixel is the mean of its neighbourhood minus \<open>C\<close>.
  \<open>THRESH_BINARY\<close> gives \<open>maxValue\<close> to a pixel above its threshold and 0 to the others;
  \<open>THRESH_BINARY_INV\<close> gives 0 to a pixel above its threshold and \<open>maxValue\<close> to the
  others.\<close>

definition adaptiveThreshold :: "image \<Rightarrow> int \<Rightarrow> thresh_type \<Rightarrow> nat \<Rightarrow> int \<Rightarrow> error + image" where
  "adaptiveThreshold src maxValue thresholdType blockSize C =
     (if img_channels src \<noteq> 1 then Inl (CvError ''src.type() == CV_8UC1'')
      else if blockSize mod 2 \<noteq> 1 \<or> blockSize \<le> 1
        then Inl (CvError ''blockSize % 2 == 1 && blockSize > 1'')
      else if maxValue < 0 then Inr (build (img_height src) (img_width src) 1 (\<lambda>y x k. 0))
      else Inr (build (img_height src) (img_width src) 1 (\<lambda>y x k.
             let above = (uint (px src y x 0) > box_mean src blockSize y x - C)
             in case thresholdType of
                  THRESH_BINARY \<Rightarrow> if above then sat8 maxValue else 0
                | THRESH_BINARY_INV \<Rightarrow> if above then 0 else sat8 maxValue)))"

subsection \<open>Laplacian and convertScaleAbs\<close>

text \<open>\<^verbatim>\<open>cv2.Laplacian(src, cv2.CV_64F)\<close> with the default aperture: the sum of the four
  neighbours minus four times the pixel, the border reflected. The result has depth
  \<open>CV_64F\<close>; its values are whole numbers, held here as integers.\<close>

definition Laplacian :: "image \<Rightarrow> error + int list list list" where
  "Laplacian src =
     (let h = img_height src; w = img_width src
      in if h = 0 \<or> w = 0 then Inl (CvError ''!_src.empty()'')
         else Inr (build h w (img_channels src) (\<lambda>y x k.
                uint (px src (border_reflect101 h (int y - 1)) x k)
              + uint (px src (border_reflect101 h (int y + 1)) x k)
              + uint (px src y (border_reflect101 w (int x - 1)) k)
              + uint (px src y (border_reflect101 w (int x + 1)) k)
              - 4 * uint (px src y x k))))"

definition convertScaleAbs :: "int list list list \<Rightarrow> image" where
  "convertScaleAbs src = map (map (map (\<lambda>v. sat8 \<bar>v\<bar>))) src"

subsection \<open>GaussianBlur\<close>

definition gauss5 :: "int list" where
  "gauss5 = [1, 4, 6, 4, 1]"

text \<open>\<^verbatim>\<open>cv2.GaussianBlur(src, (5, 5), 0)\<close>: with sigma 0 the 5-tap kernel is
  \<open>1/16, 4/16, 6/16, 4/16, 1/16\<close> in each direction, the border reflected.\<close>

definition GaussianBlur :: "image \<Rightarrow> error + image" where
  "GaussianBlur src =
     (let h = img_height src; w = img_width src
      in if h = 0 \<or> w = 0 then Inl (CvError ''!_src.empty()'')
         else Inr (build h w (img_channels src) (\<lambda>y x k.
                sat8 (((\<Sum>j\<leftarrow>[0..<5]. \<Sum>i\<leftarrow>[0..<5].
                          gauss5 ! j * gauss5 ! i *
                          uint (px src (border_reflect101 h (int y + int j - 2))
                                       (border_reflect101 w (int x + int i - 2)) k))
                       + 128) div 256))))"

subsection \<open>equalizeHist\<close>

definition histogram :: "image \<Rightarrow> nat list" where
  "histogram src = map (\<lambda>v. length (filter (\<lambda>p. unat (p ! 0) = v) (concat src))) [0..<256]"

text \<open>\<^verbatim>\<open>cv2.equalizeHist(src)\<close>: the cumulative histogram, counted from the first
  occupied bin, is scaled to 0..255 and used as a lookup table. When that first bin
  holds every pixel there is nothing to spread, and the result is filled with the one
  intensity.\<close>

definition equalizeHist :: "image \<Rightarrow> error + image" where
  "equalizeHist src =
     (if img_channels src \<noteq> 1 then Inl (CvError ''_src.type() == CV_8UC1'')
      else let hist = histogram src;
               total = img_height src * img_width src;
               i = length (takeWhile (\<lambda>n. n = 0) hist)
           in if hist ! i = total
              then Inr (build (img_height src) (img_width src) 1 (\<lambda>y x k. of_nat i))
              else Inr (map (map (map (\<lambda>p.
                     if unat p \<le> i then 0
                     else sat8 (round (of_nat (\<Sum>v\<leftarrow>[Suc i..<Suc (unat p)]. hist ! v) * 255
                                       / (of_nat (total - hist ! i) :: rat)))))) src))"

section \<open>Arrays in memory\<close>

text \<open>
  The program holds frames by reference and draws on one of them in place, so the arrays
  live in a store and the program's variables hold addresses. Every library call that
  returns a frame returns a fresh array. Text drawn on an array is recorded with the
  array, in drawing order, beside the pixels it was drawn over.
\<close>

datatype label =
    FrameLabel nat int   \<comment> \<open>\<^verbatim>\<open>f'Frame: {frame_count}/{total_frames}'\<close>\<close>
  | FpsLabel rat         \<comment> \<open>\<^verbatim>\<open>f'FPS: {current_fps:.2f}'\<close>\<close>

datatype font = FONT_HERSHEY_SIMPLEX

record overlay =
  text_of :: label
  org :: "nat \<times> nat"
  fontFace :: font
  fontScale :: nat
  color :: "nat \<times> nat \<times> nat"
  thickness :: nat

record cell =
  pixels :: image
  drawn :: "overlay list"

type_synonym addr = nat
type_synonym store = "cell list"

definition new_array :: "store \<Rightarrow> image \<Rightarrow> addr \<times> store" where
  "new_array st img = (length st, st @ [\<lparr>pixels = img, drawn = []\<rparr>])"

definition returning :: "store \<Rightarrow> error + image \<Rightarrow> error + (addr \<times> store)" where
  "returning st r = (case r of Inl e \<Rightarrow> Inl e | Inr img \<Rightarrow> Inr (new_array st img))"

definition bind_result :: "error + 'a \<Rightarrow> ('a \<Rightarrow> error + 'b) \<Rightarrow> error + 'b" where
  "bind_result m f = (case m of Inl e \<Rightarrow> Inl e | Inr v \<Rightarrow> f v)"

definition cv2_resize :: "store \<Rightarrow> addr \<Rightarrow> nat \<times> nat \<Rightarrow> error + (addr \<times> store)" where
  "cv2_resize st src dsize = returning st (resize (pixels (st ! src)) dsize)"

definition cv2_cvtColor :: "store \<Rightarrow> addr \<Rightarrow> color_code \<Rightarrow> error + (addr \<times> store)" where
  "cv2_cvtColor st src code = returning st (cvtColor (pixels (st ! src)) code)"

definition cv2_adaptiveThreshold ::
  "store \<Rightarrow> addr \<Rightarrow> int \<Rightarrow> thresh_type \<Rightarrow> nat \<Rightarrow> int \<Rightarrow> error + (addr \<times> store)" where
  "cv2_adaptiveThreshold st src maxValue thresholdType blockSize C =
     returning st (adaptiveThreshold (pixels (st ! src)) maxValue thresholdType blockSize C)"

text \<open>The two statements \<^verbatim>\<open>lap = cv2.Laplacian(gray, cv2.CV_64F)\<close> and
  \<^verbatim>\<open>lap = cv2.convertScaleAbs(lap)\<close>: the 64-bit intermediate is reachable only through
  the name that the second statement rebinds.\<close>

definition cv2_Laplacian_abs :: "store \<Rightarrow> addr \<Rightarrow> error + (addr \<times> store)" where
  "cv2_Laplacian_abs st src =
     returning st (bind_result (Laplacian (pixels (st ! src))) (\<lambda>lap. Inr (convertScaleAbs lap)))"

definition cv2_GaussianBlur :: "store \<Rightarrow> addr \<Rightarrow> error + (addr \<times> store)" where
  "cv2_GaussianBlur st src = returning st (GaussianBlur (pixels (st ! src)))"

definition cv2_equalizeHist :: "store \<Rightarrow> addr \<Rightarrow> error + (addr \<times> store)" where
  "cv2_equalizeHist st src = returning st (equalizeHist (pixels (st ! src)))"

text \<open>\<^verbatim>\<open>cv2.putText(img, text, org, fontFace, fontScale, color, thickness)\<close> draws on the
  array it is given and on no other.\<close>

definition cv2_putText :: "store \<Rightarrow> addr \<Rightarrow> overlay \<Rightarrow> store" where
  "cv2_putText st img ov = st[img := (st ! img)\<lparr>drawn := drawn (st ! img) @ [ov]\<rparr>]"

section \<open>The transform pipeline\<close>

definition default_target_size :: "nat \<times> nat" where
  "default_target_size = (540, 380)"

definition process_frame ::
  "store \<Rightarrow> addr \<Rightarrow> nat \<times> nat \<Rightarrow> error + ((string \<rightharpoonup> addr) \<times> store)" where
  "process_frame st0 frame target_sz =
     bind_result (cv2_resize st0 frame target_sz) (\<lambda>(resized_frame, st1).
     bind_result (cv2_cvtColor st1 resized_frame COLOR_BGR2GRAY) (\<lambda>(gray, st2).
     bind_result (cv2_cvtColor st2 resized_frame COLOR_BGR2HLS) (\<lambda>(hls, st3).
     bind_result (cv2_cvtColor st3 resized_frame COLOR_BGR2HSV) (\<lambda>(hsv, st4).
     bind_result (cv2_adaptiveThreshold st4 gray 255 THRESH_BINARY_INV 11 2) (\<lambda>(thresh, st5).
     bind_result (cv2_Laplacian_abs st5 gray) (\<lambda>(lap, st6).
     bind_result (cv2_GaussianBlur st6 gray) (\<lambda>(blur, st7).
     bind_result (cv2_equalizeHist st7 gray) (\<lambda>(equalized, st8).
     Inr ([''original'' \<mapsto> resized_frame,
           ''gray'' \<mapsto> gray,
           ''hls'' \<mapsto> hls,
           ''hsv'' \<mapsto> hsv,
           ''thresh'' \<mapsto> thresh,
           ''laplacian'' \<mapsto> lap,
           ''blur'' \<mapsto> blur,
           ''equalized'' \<mapsto> equalized], st8)))))))))"

section \<open>The environment of a run\<close>

text \<open>
  What a run meets outside the program: which paths exist, which of them open as a video
  and what the video holds, what the clock and the keyboard answer each time they are
  asked, and which calls into the decoder, the display and the encoder fail.
\<close>

record video =
  vid_width :: nat
  vid_height :: nat
  vid_fps :: rat
  vid_frame_count :: int
  vid_frames :: "image list"

datatype site = Decode | Display | Encode

record world =
  path_exists :: "string \<Rightarrow> bool"
  video_at :: "string \<Rightarrow> video option"
  clock :: "nat \<Rightarrow> rat"
  keys :: "nat \<Rightarrow> int"
  faults :: "site \<Rightarrow> nat \<Rightarrow> bool"

datatype message =
    Msg_not_exist string
  | Msg_open_failed string
  | Msg_video_loaded nat nat rat int
  | Msg_end_of_video
  | Msg_processed_frame nat
  | Msg_user_interrupted
  | Msg_completed
  | Msg_error_occurred error

datatype line =
    Line_cannot_access
  | Line_downloading
  | Line_processing
  | Line_saved_as string
  | Line_error_occurred error

datatype event =
    Log_error message
  | Log_info message
  | Printed line
  | Slept nat
  | Capture_created nat string
  | Capture_released nat
  | Writer_created nat string
  | Writer_released nat
  | Frame_read "addr option"
  | Counter_set nat
  | Transformed "string \<rightharpoonup> addr"
  | Clock_read rat
  | Text_drawn addr overlay
  | Shown string cell
  | Written nat cell
  | Key_polled int
  | Windows_destroyed

record capture =
  cap_opened :: bool
  cap_info :: "video option"
  cap_pending :: "image list"

record writer =
  wr_path :: string
  wr_fourcc :: string
  wr_fps :: rat
  wr_size :: "nat \<times> nat"
  wr_opened :: bool
  wr_frames :: "cell list"

text \<open>The state of the program: the arrays, the library objects it has created, the
  windows on screen, how often each outside service has been called, the frame counter
  of \<^verbatim>\<open>main\<close>, and the log of everything the program has done, in order.\<close>

record state =
  store :: store
  captures :: "nat \<Rightarrow> capture"
  n_captures :: nat
  writers :: "nat \<Rightarrow> writer"
  n_writers :: nat
  windows :: "string \<rightharpoonup> cell"
  calls :: "site \<Rightarrow> nat"
  clock_reads :: nat
  key_polls :: nat
  frame_count :: nat
  trace :: "event list"

definition initial_state :: state where
  "initial_state =
     \<lparr>store = [],
      captures = (\<lambda>n. \<lparr>cap_opened = False, cap_info = None, cap_pending = []\<rparr>),
      n_captures = 0,
      writers = (\<lambda>n. \<lparr>wr_path = [], wr_fourcc = [], wr_fps = 0, wr_size = (0, 0),
                       wr_opened = False, wr_frames = []\<rparr>),
      n_writers = 0,
      windows = Map.empty, calls = (\<lambda>k. 0),
      clock_reads = 0, key_polls = 0, frame_count = 0, trace = []\<rparr>"

subsection \<open>Statements\<close>

text \<open>A statement runs in a state and either raises, leaving the state as it was at
  that moment, or returns a value and the next state.\<close>

type_synonym 'a stmt = "state \<Rightarrow> (error \<times> state) + ('a \<times> state)"

definition return :: "'a \<Rightarrow> 'a stmt" where
  "return v s = Inr (v, s)"

definition raise :: "error \<Rightarrow> 'a stmt" where
  "raise e s = Inl (e, s)"

definition seq :: "'a stmt \<Rightarrow> ('a \<Rightarrow> 'b stmt) \<Rightarrow> 'b stmt" where
  "seq m f s = (case m s of Inl es \<Rightarrow> Inl es | Inr (v, s') \<Rightarrow> f v s')"

definition emit :: "event \<Rightarrow> unit stmt" where
  "emit e s = Inr ((), s\<lparr>trace := trace s @ [e]\<rparr>)"

text \<open>A call into an outside service fails when the environment says that this call
  does.\<close>

definition attempt :: "world \<Rightarrow> site \<Rightarrow> string \<Rightarrow> unit stmt" where
  "attempt w k what s =
     (if faults w k (calls s k) then Inl (CvError what, s)
      else Inr ((), s\<lparr>calls := (calls s)(k := Suc (calls s k))\<rparr>))"

subsection \<open>Operating system, clock and log\<close>

definition os_path_exists :: "world \<Rightarrow> string \<Rightarrow> bool" where
  "os_path_exists w path = path_exists w path"

definition time_sleep :: "nat \<Rightarrow> unit stmt" where
  "time_sleep secs = emit (Slept secs)"

definition time_time :: "world \<Rightarrow> rat stmt" where
  "time_time w s =
     (let t = clock w (clock_reads s)
      in Inr (t, s\<lparr>clock_reads := Suc (clock_reads s), trace := trace s @ [Clock_read t]\<rparr>))"

definition logger_error :: "message \<Rightarrow> unit stmt" where
  "logger_error msg = emit (Log_error msg)"

definition logger_info :: "message \<Rightarrow> unit stmt" where
  "logger_info msg = emit (Log_info msg)"

definition print :: "line \<Rightarrow> unit stmt" where
  "print l = emit (Printed l)"

subsection \<open>Decoder\<close>

definition VideoCapture :: "world \<Rightarrow> string \<Rightarrow> nat stmt" where
  "VideoCapture w path s =
     (let c = (case video_at w path of
                 None \<Rightarrow> \<lparr>cap_opened = False, cap_info = None, cap_pending = []\<rparr>
               | Some v \<Rightarrow> \<lparr>cap_opened = True, cap_info = Some v, cap_pending = vid_frames v\<rparr>);
          cap = n_captures s
      in Inr (cap, s\<lparr>captures := (captures s)(cap := c), n_captures := Suc cap,
                     trace := trace s @ [Capture_created cap path]\<rparr>))"

definition cap_isOpened :: "state \<Rightarrow> nat \<Rightarrow> bool" where
  "cap_isOpened s cap = cap_opened (captures s cap)"

definition cap_release :: "nat \<Rightarrow> unit stmt" where
  "cap_release cap s =
     Inr ((), s\<lparr>captures := (captures s)(cap := (captures s cap)\<lparr>cap_opened := False\<rparr>),
                 trace := trace s @ [Capture_released cap]\<rparr>)"

text \<open>\<^verbatim>\<open>cap.get(prop)\<close> answers 0 on a capture that is not open.\<close>

definition cap_get :: "nat \<Rightarrow> (video \<Rightarrow> 'a::zero) \<Rightarrow> 'a stmt" where
  "cap_get cap prop s =
     (let c = captures s cap
      in Inr (case cap_info c of
                None \<Rightarrow> 0
              | Some v \<Rightarrow> if cap_opened c then prop v else 0, s))"

text \<open>\<^verbatim>\<open>cap.read()\<close> hands out the next frame as a fresh array, or \<^verbatim>\<open>(False, None)\<close> when
  the capture is closed or has no frame left.\<close>

definition cap_read :: "world \<Rightarrow> nat \<Rightarrow> (bool \<times> addr option) stmt" where
  "cap_read w cap =
     seq (attempt w Decode ''read'') (\<lambda>_ s.
       let c = captures s cap
       in case cap_pending c of
            [] \<Rightarrow> Inr ((False, None), s\<lparr>trace := trace s @ [Frame_read None]\<rparr>)
          | img # rest \<Rightarrow>
              if \<not> cap_opened c
              then Inr ((False, None), s\<lparr>trace := trace s @ [Frame_read None]\<rparr>)
              else let (frame, st) = new_array (store s) img
                   in Inr ((True, Some frame),
                           s\<lparr>store := st,
                             captures := (captures s)(cap := c\<lparr>cap_pending := rest\<rparr>),
                             trace := trace s @ [Frame_read (Some frame)]\<rparr>))"

subsection \<open>Encoder\<close>

definition VideoWriter :: "string \<Rightarrow> string \<Rightarrow> rat \<Rightarrow> nat \<times> nat \<Rightarrow> nat stmt" where
  "VideoWriter path fourcc fps frameSize s =
     (let out = n_writers s
      in Inr (out, s\<lparr>writers := (writers s)(out :=
                        \<lparr>wr_path = path, wr_fourcc = fourcc, wr_fps = fps,
                          wr_size = frameSize, wr_opened = True, wr_frames = []\<rparr>),
                     n_writers := Suc out,
                     trace := trace s @ [Writer_created out path]\<rparr>))"

definition out_write :: "world \<Rightarrow> nat \<Rightarrow> addr \<Rightarrow> unit stmt" where
  "out_write w out img =
     seq (attempt w Encode ''write'') (\<lambda>_ s.
       let wr = writers s out; c = store s ! img
       in Inr ((), s\<lparr>writers := (writers s)(out := wr\<lparr>wr_frames := wr_frames wr @ [c]\<rparr>),
                     trace := trace s @ [Written out c]\<rparr>))"

definition out_release :: "nat \<Rightarrow> unit stmt" where
  "out_release out s =
     Inr ((), s\<lparr>writers := (writers s)(out := (writers s out)\<lparr>wr_opened := False\<rparr>),
                 trace := trace s @ [Writer_released out]\<rparr>)"

subsection \<open>Display\<close>

definition cv2_imshow :: "world \<Rightarrow> string \<Rightarrow> addr \<Rightarrow> unit stmt" where
  "cv2_imshow w winname mat =
     seq (attempt w Display ''imshow'') (\<lambda>_ s.
       let c = store s ! mat
       in Inr ((), s\<lparr>windows := (windows s)(winname \<mapsto> c),
                     trace := trace s @ [Shown winname c]\<rparr>))"

definition cv2_waitKey :: "world \<Rightarrow> nat \<Rightarrow> int stmt" where
  "cv2_waitKey w delay =
     seq (attempt w Display ''waitKey'') (\<lambda>_ s.
       let k = keys w (key_polls s)
       in Inr (k, s\<lparr>key_polls := Suc (key_polls s), trace := trace s @ [Key_polled k]\<rparr>))"

definition cv2_destroyAllWindows :: "unit stmt" where
  "cv2_destroyAllWindows s =
     Inr ((), s\<lparr>windows := Map.empty, trace := trace s @ [Windows_destroyed]\<rparr>)"

subsection \<open>Arrays and dictionaries from inside a statement\<close>

definition putText :: "addr \<Rightarrow> overlay \<Rightarrow> unit stmt" where
  "putText img ov s =
     Inr ((), s\<lparr>store := cv2_putText (store s) img ov,
                 trace := trace s @ [Text_drawn img ov]\<rparr>)"

text \<open>\<^verbatim>\<open>d[key]\<close> raises when the key is missing.\<close>

definition getitem :: "(string \<rightharpoonup> addr) \<Rightarrow> string \<Rightarrow> addr stmt" where
  "getitem d key s =
     (case d key of None \<Rightarrow> Inl (KeyError key, s) | Some a \<Rightarrow> Inr (a, s))"

definition lift :: "error + 'a \<Rightarrow> 'a stmt" where
  "lift r s = (case r of Inl e \<Rightarrow> Inl (e, s) | Inr v \<Rightarrow> Inr (v, s))"

section \<open>The program\<close>

subsection \<open>check_video_file\<close>

definition check_video_file :: "world \<Rightarrow> string \<Rightarrow> bool stmt" where
  "check_video_file w video_path =
     (if \<not> os_path_exists w video_path
      then seq (logger_error (Msg_not_exist video_path)) (\<lambda>_. return False)
      else seq (VideoCapture w video_path) (\<lambda>cap s.
             if \<not> cap_isOpened s cap
             then seq (logger_error (Msg_open_failed video_path)) (\<lambda>_. return False) s
             else seq (cap_release cap) (\<lambda>_. return True) s))"

subsection \<open>initialize_video_writer\<close>

definition initialize_video_writer :: "nat \<Rightarrow> string \<Rightarrow> nat \<Rightarrow> nat \<Rightarrow> nat stmt" where
  "initialize_video_writer cap output_path width height =
     (let fourcc = ''mp4v''
      in seq (cap_get cap vid_fps) (\<lambda>fps.
         VideoWriter output_path fourcc fps (width, height)))"

subsection \<open>The steps of one iteration\<close>

text \<open>The call \<^verbatim>\<open>process_frame(frame)\<close> from \<^verbatim>\<open>main\<close>, with the default target size.\<close>

definition call_process_frame :: "addr \<Rightarrow> (string \<rightharpoonup> addr) stmt" where
  "call_process_frame frame s =
     (case process_frame (store s) frame default_target_size of
        Inl e \<Rightarrow> Inl (e, s)
      | Inr (processed, st) \<Rightarrow>
          Inr (processed, s\<lparr>store := st, trace := trace s @ [Transformed processed]\<rparr>))"

definition truediv :: "rat \<Rightarrow> rat \<Rightarrow> error + rat" where
  "truediv a b = (if b = 0 then Inl ZeroDivisionError else Inr (a / b))"

text \<open>\<^verbatim>\<open>frame_count / elapsed_time if elapsed_time > 0 else 0\<close>\<close>

definition current_fps :: "nat \<Rightarrow> rat \<Rightarrow> error + rat" where
  "current_fps frames elapsed_time =
     (if elapsed_time > 0 then truediv (of_nat frames) elapsed_time else Inr 0)"

definition increment_frame_count :: "nat stmt" where
  "increment_frame_count s =
     (let n = frame_count s + 1
      in Inr (n, s\<lparr>frame_count := n, trace := trace s @ [Counter_set n]\<rparr>))"

definition overlay_at :: "label \<Rightarrow> nat \<times> nat \<Rightarrow> overlay" where
  "overlay_at l pos =
     \<lparr>text_of = l, org = pos, fontFace = FONT_HERSHEY_SIMPLEX, fontScale = 1,
      color = (0, 255, 0), thickness = 2\<rparr>"

definition add_text_overlays :: "(string \<rightharpoonup> addr) \<Rightarrow> nat \<Rightarrow> int \<Rightarrow> rat \<Rightarrow> unit stmt" where
  "add_text_overlays processed frames total_frames fps =
     seq (getitem processed ''original'') (\<lambda>img.
     seq (putText img (overlay_at (FrameLabel frames total_frames) (50, 50))) (\<lambda>_.
     seq (getitem processed ''original'') (\<lambda>img.
     putText img (overlay_at (FpsLabel fps) (50, 100)))))"

definition show_frame :: "world \<Rightarrow> string \<Rightarrow> (string \<rightharpoonup> addr) \<Rightarrow> string \<Rightarrow> unit stmt" where
  "show_frame w winname processed key =
     seq (getitem processed key) (\<lambda>img. cv2_imshow w winname img)"

definition display_frames :: "world \<Rightarrow> (string \<rightharpoonup> addr) \<Rightarrow> unit stmt" where
  "display_frames w processed =
     seq (show_frame w ''Original Frame'' processed ''original'') (\<lambda>_.
     seq (show_frame w ''Grayscale'' processed ''gray'') (\<lambda>_.
     seq (show_frame w ''HLS Color Space'' processed ''hls'') (\<lambda>_.
     seq (show_frame w ''HSV Color Space'' processed ''hsv'') (\<lambda>_.
     seq (show_frame w ''Adaptive Threshold'' processed ''thresh'') (\<lambda>_.
     seq (show_frame w ''Laplacian Edge'' processed ''laplacian'') (\<lambda>_.
     seq (show_frame w ''Gaussian Blur'' processed ''blur'') (\<lambda>_.
     show_frame w ''Histogram Equalized'' processed ''equalized'')))))))"

datatype control = Continue | Break

text \<open>The body of the \<^verbatim>\<open>while\<close> loop of \<^verbatim>\<open>main\<close>.\<close>

definition loop_body :: "world \<Rightarrow> nat \<Rightarrow> nat \<Rightarrow> int \<Rightarrow> rat \<Rightarrow> control stmt" where
  "loop_body w cap out total_frames start_time =
     seq (cap_read w cap) (\<lambda>(ret, frame).
     if \<not> ret then seq (logger_info Msg_end_of_video) (\<lambda>_. return Break)
     else
     seq increment_frame_count (\<lambda>frames.
     seq (call_process_frame (the frame)) (\<lambda>processed.
     seq (time_time w) (\<lambda>now.
     let elapsed_time = now - start_time in
     seq (lift (current_fps frames elapsed_time)) (\<lambda>fps.
     seq (add_text_overlays processed frames total_frames fps) (\<lambda>_.
     seq (display_frames w processed) (\<lambda>_.
     seq (getitem processed ''original'') (\<lambda>img.
     seq (out_write w out img) (\<lambda>_.
     seq (logger_info (Msg_processed_frame frames)) (\<lambda>_.
     seq (cv2_waitKey w 25) (\<lambda>key.
     if and key 255 = 113
     then seq (logger_info Msg_user_interrupted) (\<lambda>_. return Break)
     else return Continue)))))))))))"

subsection \<open>Termination of the loop\<close>

text \<open>Each iteration that goes round again has taken one frame from the capture, and
  nothing after the read touches the capture.\<close>

lemma seq_Inr_iff:
  "seq m f s = Inr r \<longleftrightarrow> (\<exists>v s'. m s = Inr (v, s') \<and> f v s' = Inr r)"
  by (auto simp: seq_def split: sum.splits)

lemma seq_Inl_iff:
  "seq m f s = Inl r \<longleftrightarrow> m s = Inl r \<or> (\<exists>v s'. m s = Inr (v, s') \<and> f v s' = Inl r)"
  by (auto simp: seq_def split: sum.splits)

definition keeps :: "(state \<Rightarrow> 'b) \<Rightarrow> 'a stmt \<Rightarrow> bool" where
  "keeps g m \<longleftrightarrow> (\<forall>s r. m s = Inr r \<longrightarrow> g (snd r) = g s)"

lemma keepsD: "keeps g m \<Longrightarrow> m s = Inr (v, s') \<Longrightarrow> g s' = g s"
  by (auto simp: keeps_def)

lemma keeps_seq [intro!]: "keeps g m \<Longrightarrow> (\<And>v. keeps g (f v)) \<Longrightarrow> keeps g (seq m f)"
  unfolding keeps_def seq_Inr_iff by (metis snd_conv)

lemma keeps_if [intro!]: "keeps g m \<Longrightarrow> keeps g n \<Longrightarrow> keeps g (if b then m else n)"
  by simp

lemma keeps_let [intro!]: "(\<And>v. keeps g (f v)) \<Longrightarrow> keeps g (Let x f)"
  by simp

lemma keeps_captures_steps [intro!]:
  "keeps captures (emit e)" "keeps captures (attempt w k what)"
  "keeps captures (time_time w)" "keeps captures (getitem d key)"
  "keeps captures (putText a ov)" "keeps captures (lift r)" "keeps captures (return x)"
  "keeps captures increment_frame_count" "keeps captures (call_process_frame a)"
  by (auto simp: keeps_def emit_def attempt_def time_time_def getitem_def putText_def lift_def
      return_def increment_frame_count_def call_process_frame_def Let_def
      split: if_splits option.splits sum.splits prod.splits)

lemma keeps_captures_calls [intro!]:
  "keeps captures (cv2_imshow w n a)" "keeps captures (cv2_waitKey w d)"
  "keeps captures (out_write w out a)" "keeps captures (logger_info msg)"
  by (auto simp: keeps_def cv2_imshow_def cv2_waitKey_def out_write_def logger_info_def
      seq_Inr_iff emit_def attempt_def Let_def split: if_splits)

lemma keeps_captures_blocks [intro!]:
  "keeps captures (add_text_overlays d n t f)" "keeps captures (display_frames w d)"
  unfolding add_text_overlays_def display_frames_def show_frame_def by blast+

lemma cap_read_True:
  assumes "cap_read w cap s = Inr ((True, fr), s1)"
  shows "\<exists>img. cap_pending (captures s cap) = img # cap_pending (captures s1 cap)"
  using assms
  by (auto simp: cap_read_def seq_Inr_iff attempt_def new_array_def Let_def
      split: if_splits list.splits)

text \<open>The part of the loop body that follows a successful read.\<close>

definition after_read :: "world \<Rightarrow> nat \<Rightarrow> int \<Rightarrow> rat \<Rightarrow> addr option \<Rightarrow> control stmt" where
  "after_read w out total_frames start_time frame =
     seq increment_frame_count (\<lambda>frames.
     seq (call_process_frame (the frame)) (\<lambda>processed.
     seq (time_time w) (\<lambda>now.
     let elapsed_time = now - start_time in
     seq (lift (current_fps frames elapsed_time)) (\<lambda>fps.
     seq (add_text_overlays processed frames total_frames fps) (\<lambda>_.
     seq (display_frames w processed) (\<lambda>_.
     seq (getitem processed ''original'') (\<lambda>img.
     seq (out_write w out img) (\<lambda>_.
     seq (logger_info (Msg_processed_frame frames)) (\<lambda>_.
     seq (cv2_waitKey w 25) (\<lambda>key.
     if and key 255 = 113
     then seq (logger_info Msg_user_interrupted) (\<lambda>_. return Break)
     else return Continue))))))))))"

lemma loop_body_after_read:
  "loop_body w cap out total_frames start_time =
     seq (cap_read w cap) (\<lambda>(ret, frame).
     if \<not> ret then seq (logger_info Msg_end_of_video) (\<lambda>_. return Break)
     else after_read w out total_frames start_time frame)"
  unfolding loop_body_def after_read_def by (rule refl)

lemma keeps_captures_after_read: "keeps captures (after_read w out t st fr)"
  unfolding after_read_def by blast

lemma loop_body_Continue:
  assumes "loop_body w cap out t st s = Inr (Continue, s')"
  shows "length (cap_pending (captures s' cap)) < length (cap_pending (captures s cap))"
proof -
  from assms obtain ret fr s1 where r: "cap_read w cap s = Inr ((ret, fr), s1)"
    and k: "(if \<not> ret then seq (logger_info Msg_end_of_video) (\<lambda>_. return Break)
             else after_read w out t st fr) s1 = Inr (Continue, s')"
    by (auto simp: loop_body_after_read seq_Inr_iff)
  have ret: ret
    using k by (cases ret) (auto simp: seq_Inr_iff return_def)
  with k have "after_read w out t st fr s1 = Inr (Continue, s')" by simp
  then have "captures s' = captures s1" by (rule keepsD [OF keeps_captures_after_read])
  moreover from r ret obtain img where
    "cap_pending (captures s cap) = img # cap_pending (captures s1 cap)"
    using cap_read_True [of w cap s fr s1] by auto
  ultimately show ?thesis by simp
qed

subsection \<open>main\<close>

text \<open>The \<^verbatim>\<open>while cap.isOpened()\<close> loop.\<close>

function main_loop :: "world \<Rightarrow> nat \<Rightarrow> nat \<Rightarrow> int \<Rightarrow> rat \<Rightarrow> unit stmt" where
  "main_loop w cap out total_frames start_time s =
     (if \<not> cap_isOpened s cap then Inr ((), s)
      else case loop_body w cap out total_frames start_time s of
             Inl es \<Rightarrow> Inl es
           | Inr (Break, s') \<Rightarrow> Inr ((), s')
           | Inr (Continue, s') \<Rightarrow> main_loop w cap out total_frames start_time s')"
  by pat_completeness auto
termination
  by (relation "measure (\<lambda>(w, cap, out, t, st, s). length (cap_pending (captures s cap)))")
     (auto dest: loop_body_Continue)

definition reset_frame_count :: "unit stmt" where
  "reset_frame_count s = Inr ((), s\<lparr>frame_count := 0, trace := trace s @ [Counter_set 0]\<rparr>)"

definition main :: "world \<Rightarrow> unit stmt" where
  "main w =
     (let video_path = ''Demo.mp4''; output_path = ''processed_video.mp4'' in
      seq (check_video_file w video_path) (\<lambda>ok.
      if \<not> ok then print Line_cannot_access
      else
      seq (VideoCapture w video_path) (\<lambda>cap.
      seq (cap_get cap vid_width) (\<lambda>width.
      seq (cap_get cap vid_height) (\<lambda>height.
      seq (cap_get cap vid_fps) (\<lambda>fps.
      seq (cap_get cap vid_frame_count) (\<lambda>total_frames.
      seq (logger_info (Msg_video_loaded width height fps total_frames)) (\<lambda>_.
      seq (initialize_video_writer cap output_path 540 380) (\<lambda>out.
      seq (print Line_downloading) (\<lambda>_.
      seq (time_sleep 10) (\<lambda>_.
      seq (print Line_processing) (\<lambda>_.
      seq (time_sleep 15) (\<lambda>_.
      seq reset_frame_count (\<lambda>_.
      seq (time_time w) (\<lambda>start_time.
      seq (main_loop w cap out total_frames start_time) (\<lambda>_.
      seq (cap_release cap) (\<lambda>_.
      seq (out_release out) (\<lambda>_.
      seq cv2_destroyAllWindows (\<lambda>_.
      seq (logger_info Msg_completed) (\<lambda>_.
      print (Line_saved_as output_path)))))))))))))))))))))"

subsection \<open>The entry point\<close>

text \<open>\<^verbatim>\<open>try: main() except Exception as e: ...\<close>: a fault that escapes \<^verbatim>\<open>main\<close> is logged
  and printed, and the script ends. The value is the state in which it ends.\<close>

definition run_script :: "world \<Rightarrow> state" where
  "run_script w =
     (case main w initial_state of
        Inr (_, s) \<Rightarrow> s
      | Inl (e, s) \<Rightarrow>
          (case seq (logger_error (Msg_error_occurred e)) (\<lambda>_. print (Line_error_occurred e)) s of
             Inr (_, s') \<Rightarrow> s'
           | Inl (_, s') \<Rightarrow> s'))"

text \<open>What one output of the pipeline holds, by name: the pixels of the array that
  \<^verbatim>\<open>process_frame(frame, target_size)[name]\<close> refers to.\<close>

definition output_pixels :: "store \<Rightarrow> addr \<Rightarrow> nat \<times> nat \<Rightarrow> string \<Rightarrow> image option" where
  "output_pixels st frame target_sz name =
     (case process_frame st frame target_sz of
        Inl e \<Rightarrow> None
      | Inr (processed, st') \<Rightarrow> map_option (\<lambda>a. pixels (st' ! a)) (processed name))"

section \<open>Shapes\<close>

lemma img_height_build [simp]: "img_height (build h w c f) = h"
  by (simp add: img_height_def build_def)

lemma img_width_build [simp]: "0 < h \<Longrightarrow> img_width (build h w c f) = w"
  by (cases h) (simp_all add: img_width_def build_def upt_conv_Cons del: upt_Suc)

lemma img_channels_build [simp]: "0 < h \<Longrightarrow> 0 < w \<Longrightarrow> img_channels (build h w c f) = c"
  by (cases h; cases w) (simp_all add: img_channels_def build_def upt_conv_Cons del: upt_Suc)

lemma wf_build [simp]: "0 < h \<Longrightarrow> 0 < w \<Longrightarrow> 0 < c \<Longrightarrow> wf_image (build h w c f)"
  unfolding wf_image_def by (simp add: list_all_iff) (auto simp: build_def)

lemma build_cong:
  assumes "\<And>y x k. y < h \<Longrightarrow> x < w \<Longrightarrow> k < c \<Longrightarrow> f y x k = g y x k"
  shows "build h w c f = build h w c g"
  using assms by (simp add: build_def)

lemma build_const: "build h w c (\<lambda>y x k. v) = constant_image h w c v"
  by (simp add: build_def constant_image_def map_replicate_const)

lemma px_constant [simp]:
  "y < h \<Longrightarrow> x < w \<Longrightarrow> k < c \<Longrightarrow> px (constant_image h w c v) y x k = v"
  by (simp add: px_def constant_image_def)

lemma img_height_constant [simp]: "img_height (constant_image h w c v) = h"
  by (simp add: img_height_def constant_image_def)

lemma img_width_constant [simp]: "0 < h \<Longrightarrow> img_width (constant_image h w c v) = w"
  by (cases h) (simp_all add: img_width_def constant_image_def)

lemma img_channels_constant [simp]:
  "0 < h \<Longrightarrow> 0 < w \<Longrightarrow> img_channels (constant_image h w c v) = c"
  by (cases h; cases w) (simp_all add: img_channels_def constant_image_def)

lemma wf_constant [simp]: "0 < h \<Longrightarrow> 0 < w \<Longrightarrow> 0 < c \<Longrightarrow> wf_image (constant_image h w c v)"
  unfolding wf_image_def by (simp add: list_all_iff) (auto simp: constant_image_def)

lemma border_replicate_less [simp]: "0 < n \<Longrightarrow> border_replicate n i < n"
  by (auto simp: border_replicate_def)

lemma sat8_0 [simp]: "sat8 0 = 0"
  by (simp add: sat8_def)

text \<open>Pixel maps keep the shape.\<close>

lemma img_height_map [simp]: "img_height (map (map f) img) = img_height img"
  by (simp add: img_height_def)

lemma img_width_map [simp]: "img_width (map (map f) img) = img_width img"
  by (cases img) (simp_all add: img_width_def)

lemma img_channels_map:
  assumes "wf_image img" "\<And>p. length p = img_channels img \<Longrightarrow> length (f p) = c"
  shows "img_channels (map (map f) img) = c"
proof -
  from assms(1) obtain r rs where img: "img = r # rs"
    by (cases img) (auto simp: wf_image_def img_height_def)
  with assms(1) obtain p ps where r: "r = p # ps"
    by (cases r) (auto simp: wf_image_def img_width_def)
  with img assms(2) show ?thesis by (simp add: img_channels_def)
qed

lemma wf_map:
  assumes "wf_image img" "\<And>p. length p = img_channels img \<Longrightarrow> length (f p) = c" "0 < c"
  shows "wf_image (map (map f) img)"
  using assms img_channels_map [OF assms(1,2)]
  by (auto simp: wf_image_def list_all_iff)


definition has_shape :: "'a list list list \<Rightarrow> nat \<Rightarrow> nat \<Rightarrow> nat \<Rightarrow> bool" where
  "has_shape img h w c \<longleftrightarrow>
     wf_image img \<and> img_height img = h \<and> img_width img = w \<and> img_channels img = c"

lemma has_shape_build: "0 < h \<Longrightarrow> 0 < w \<Longrightarrow> 0 < c \<Longrightarrow> has_shape (build h w c f) h w c"
  by (simp add: has_shape_def)

lemma has_shape_pos: "has_shape img h w c \<Longrightarrow> 0 < h \<and> 0 < w \<and> 0 < c"
  by (auto simp: has_shape_def wf_image_def)

lemma has_shape_map:
  assumes "has_shape img h w c" "\<And>p. length p = c \<Longrightarrow> length (f p) = c'" "0 < c'"
  shows "has_shape (map (map f) img) h w c'"
  using assms wf_map [of img f c'] img_channels_map [of img f c']
  by (auto simp: has_shape_def)

lemma resize_shape:
  assumes "has_shape src h w c" "0 < dw" "0 < dh"
  shows "\<exists>r. resize src (dw, dh) = Inr r \<and> has_shape r dh dw c"
proof -
  from assms(1) have pos: "0 < h" "0 < w" "0 < c" and
    dims: "img_height src = h" "img_width src = w" "img_channels src = c"
    by (auto simp: has_shape_def wf_image_def)
  show ?thesis
  proof (cases "(w, h) = (dw, dh)")
    case True
    with assms pos dims show ?thesis by (simp add: resize_def)
  next
    case False
    with assms pos dims show ?thesis
      by (auto simp: resize_def resize_cubic_def Let_def has_shape_build)
  qed
qed

lemma length_convert_pixel:
  "length (convert_pixel code p) = (case code of COLOR_BGR2GRAY \<Rightarrow> 1 | _ \<Rightarrow> 3)"
  by (cases code) (simp_all add: bgr2gray_def bgr2hls_def bgr2hsv_def Let_def)

lemma cvtColor_shape:
  assumes "has_shape src h w 3"
  shows "\<exists>r. cvtColor src code = Inr r \<and>
             has_shape r h w (case code of COLOR_BGR2GRAY \<Rightarrow> 1 | _ \<Rightarrow> 3)"
proof -
  from assms have "0 < img_height src" "0 < img_width src" "img_channels src = 3"
    by (auto simp: has_shape_def wf_image_def)
  then have "cvtColor src code = Inr (map (map (convert_pixel code)) src)"
    by (simp add: cvtColor_def)
  moreover have "has_shape (map (map (convert_pixel code)) src) h w
                   (case code of COLOR_BGR2GRAY \<Rightarrow> 1 | _ \<Rightarrow> 3)"
    by (rule has_shape_map [OF assms]) (simp_all add: length_convert_pixel split: color_code.split)
  ultimately show ?thesis by simp
qed

lemma cvtColor_rejects:
  assumes "has_shape src h w c" "c \<noteq> 3" "c \<noteq> 4"
  shows "cvtColor src code = Inl (CvError ''Invalid number of channels in input image'')"
  using assms by (auto simp: cvtColor_def has_shape_def wf_image_def)

lemma adaptiveThreshold_shape:
  assumes "has_shape src h w 1" "0 \<le> maxValue" "blockSize mod 2 = 1" "1 < blockSize"
  shows "\<exists>r. adaptiveThreshold src maxValue tt blockSize C = Inr r \<and> has_shape r h w 1"
  using assms has_shape_pos [OF assms(1)]
  by (auto simp: adaptiveThreshold_def has_shape_def intro!: has_shape_build [unfolded has_shape_def, THEN conjunct1])

lemma Laplacian_shape:
  assumes "has_shape src h w c"
  shows "\<exists>r. Laplacian src = Inr r \<and> has_shape r h w c"
  using assms has_shape_pos [OF assms(1)]
  by (auto simp: Laplacian_def Let_def has_shape_def)

lemma img_height_map3 [simp]: "img_height (map (map (map f)) img) = img_height img"
  by (simp add: img_height_def)

lemma img_width_map3 [simp]: "img_width (map (map (map f)) img) = img_width img"
  by (cases img) (simp_all add: img_width_def)

lemma has_shape_map3:
  assumes "has_shape img h w c"
  shows "has_shape (map (map (map f)) img) h w c"
  using has_shape_map [OF assms, of "map f" c] has_shape_pos [OF assms] by simp

lemma convertScaleAbs_shape:
  "has_shape src h w c \<Longrightarrow> has_shape (convertScaleAbs src) h w c"
  by (simp add: convertScaleAbs_def has_shape_map3)

lemma GaussianBlur_shape:
  assumes "has_shape src h w c"
  shows "\<exists>r. GaussianBlur src = Inr r \<and> has_shape r h w c"
  using assms has_shape_pos [OF assms(1)]
  by (auto simp: GaussianBlur_def Let_def has_shape_def)

lemma equalizeHist_shape:
  assumes "has_shape src h w 1"
  shows "\<exists>r. equalizeHist src = Inr r \<and> has_shape r h w 1"
proof -
  from assms have dims: "img_height src = h" "img_width src = w" "img_channels src = 1"
    by (auto simp: has_shape_def)
  from has_shape_pos [OF assms] have pos: "0 < h" "0 < w" by auto
  show ?thesis
    using dims pos has_shape_map3 [OF assms] has_shape_build [of h w 1]
    by (auto simp: equalizeHist_def Let_def)
qed


definition fresh :: "image \<Rightarrow> cell" where
  "fresh img = \<lparr>pixels = img, drawn = []\<rparr>"

definition output_names :: "string list" where
  "output_names = [''original'', ''gray'', ''hls'', ''hsv'', ''thresh'', ''laplacian'', ''blur'',
                   ''equalized'']"

definition outputs_at :: "nat \<Rightarrow> string \<rightharpoonup> addr" where
  "outputs_at n = [''original'' \<mapsto> n, ''gray'' \<mapsto> n + 1, ''hls'' \<mapsto> n + 2, ''hsv'' \<mapsto> n + 3,
                   ''thresh'' \<mapsto> n + 4, ''laplacian'' \<mapsto> n + 5, ''blur'' \<mapsto> n + 6,
                   ''equalized'' \<mapsto> n + 7]"

lemma outputs_at_Suc:
  "outputs_at n =
     [''original'' \<mapsto> n, ''gray'' \<mapsto> Suc n, ''hls'' \<mapsto> Suc (Suc n),
      ''hsv'' \<mapsto> Suc (Suc (Suc n)), ''thresh'' \<mapsto> Suc (Suc (Suc (Suc n))),
      ''laplacian'' \<mapsto> Suc (Suc (Suc (Suc (Suc n)))),
      ''blur'' \<mapsto> Suc (Suc (Suc (Suc (Suc (Suc n))))),
      ''equalized'' \<mapsto> Suc (Suc (Suc (Suc (Suc (Suc (Suc n))))))]"
  unfolding outputs_at_def by (simp add: eval_nat_numeral)

lemma process_frame_Inr:
  assumes "process_frame st a ts = Inr (d, st')"
  shows "\<exists>r g hl hv t lp b e.
           resize (pixels (st ! a)) ts = Inr r \<and>
           cvtColor r COLOR_BGR2GRAY = Inr g \<and>
           cvtColor r COLOR_BGR2HLS = Inr hl \<and>
           cvtColor r COLOR_BGR2HSV = Inr hv \<and>
           adaptiveThreshold g 255 THRESH_BINARY_INV 11 2 = Inr t \<and>
           Laplacian g = Inr lp \<and>
           GaussianBlur g = Inr b \<and>
           equalizeHist g = Inr e \<and>
           d = outputs_at (length st) \<and>
           st' = st @ map fresh [r, g, hl, hv, t, convertScaleAbs lp, b, e]"
  using assms
  unfolding process_frame_def cv2_resize_def cv2_cvtColor_def cv2_adaptiveThreshold_def
    cv2_Laplacian_abs_def cv2_GaussianBlur_def cv2_equalizeHist_def returning_def
    new_array_def outputs_at_Suc fresh_def
  by (auto simp: bind_result_def nth_append split: sum.splits)

lemma process_frame_I:
  assumes "resize (pixels (st ! a)) ts = Inr r"
    "cvtColor r COLOR_BGR2GRAY = Inr g"
    "cvtColor r COLOR_BGR2HLS = Inr hl"
    "cvtColor r COLOR_BGR2HSV = Inr hv"
    "adaptiveThreshold g 255 THRESH_BINARY_INV 11 2 = Inr t"
    "Laplacian g = Inr lp"
    "GaussianBlur g = Inr b"
    "equalizeHist g = Inr e"
  shows "process_frame st a ts =
           Inr (outputs_at (length st),
                st @ map fresh [r, g, hl, hv, t, convertScaleAbs lp, b, e])"
  using assms
  unfolding process_frame_def cv2_resize_def cv2_cvtColor_def cv2_adaptiveThreshold_def
    cv2_Laplacian_abs_def cv2_GaussianBlur_def cv2_equalizeHist_def returning_def
    new_array_def outputs_at_Suc fresh_def
  by (simp add: bind_result_def nth_append)


lemma pipeline_valid:
  assumes "has_shape src h w 3" "0 < dw" "0 < dh"
  shows "\<exists>r g hl hv t lp b e.
           resize src (dw, dh) = Inr r \<and>
           cvtColor r COLOR_BGR2GRAY = Inr g \<and>
           cvtColor r COLOR_BGR2HLS = Inr hl \<and>
           cvtColor r COLOR_BGR2HSV = Inr hv \<and>
           adaptiveThreshold g 255 THRESH_BINARY_INV 11 2 = Inr t \<and>
           Laplacian g = Inr lp \<and>
           GaussianBlur g = Inr b \<and>
           equalizeHist g = Inr e \<and>
           has_shape r dh dw 3 \<and> has_shape g dh dw 1 \<and> has_shape hl dh dw 3 \<and>
           has_shape hv dh dw 3 \<and> has_shape t dh dw 1 \<and>
           has_shape (convertScaleAbs lp) dh dw 1 \<and> has_shape b dh dw 1 \<and>
           has_shape e dh dw 1"
proof -
  from resize_shape [OF assms] obtain r where
    r: "resize src (dw, dh) = Inr r" "has_shape r dh dw 3" by blast
  from cvtColor_shape [OF r(2), of COLOR_BGR2GRAY] obtain g where
    g: "cvtColor r COLOR_BGR2GRAY = Inr g" "has_shape g dh dw 1" by auto
  from cvtColor_shape [OF r(2), of COLOR_BGR2HLS] obtain hl where
    hl: "cvtColor r COLOR_BGR2HLS = Inr hl" "has_shape hl dh dw 3" by auto
  from cvtColor_shape [OF r(2), of COLOR_BGR2HSV] obtain hv where
    hv: "cvtColor r COLOR_BGR2HSV = Inr hv" "has_shape hv dh dw 3" by auto
  from adaptiveThreshold_shape [OF g(2), of 255 11 THRESH_BINARY_INV 2] obtain t where
    t: "adaptiveThreshold g 255 THRESH_BINARY_INV 11 2 = Inr t" "has_shape t dh dw 1" by auto
  from Laplacian_shape [OF g(2)] obtain lp where
    lp: "Laplacian g = Inr lp" "has_shape lp dh dw 1" by blast
  from GaussianBlur_shape [OF g(2)] obtain b where
    b: "GaussianBlur g = Inr b" "has_shape b dh dw 1" by blast
  from equalizeHist_shape [OF g(2)] obtain e where
    e: "equalizeHist g = Inr e" "has_shape e dh dw 1" by blast
  from r g hl hv t lp b e convertScaleAbs_shape [OF lp(2)] show ?thesis by blast
qed

text \<open>Black frames.\<close>

lemma resize_cubic_black:
  assumes "0 < h" "0 < w" "0 < dw" "0 < dh"
  shows "resize_cubic (constant_image h w c 0) dw dh = constant_image dh dw c 0"
proof -
  let ?src = "constant_image h w c (0::u8)"
  have "resize_cubic ?src dw dh = build dh dw c (\<lambda>y x k. 0)"
    unfolding resize_cubic_def Let_def using assms
    by (simp only: img_channels_constant img_height_constant img_width_constant)
       (rule build_cong, simp add: case_prod_beta)
  then show ?thesis by (simp add: build_const)
qed

lemma resize_black:
  assumes "0 < h" "0 < w" "0 < dw" "0 < dh"
  shows "resize (constant_image h w c 0) (dw, dh) = Inr (constant_image dh dw c 0)"
  using assms resize_cubic_black [OF assms, of c] by (auto simp: resize_def)

lemma cvtColor_gray_black:
  assumes "0 < h" "0 < w"
  shows "cvtColor (constant_image h w 3 0) COLOR_BGR2GRAY = Inr (constant_image h w 1 0)"
  using assms by (simp add: cvtColor_def) (simp add: constant_image_def bgr2gray_def)

lemma box_mean_black:
  assumes "0 < h" "0 < w" "0 < c" "0 < n"
  shows "box_mean (constant_image h w c 0) n y x = 0"
  using assms by (simp add: box_mean_def Let_def)

lemma adaptiveThreshold_black:
  assumes "0 < h" "0 < w"
  shows "adaptiveThreshold (constant_image h w 1 0) 255 THRESH_BINARY_INV 11 2 =
           Inr (constant_image h w 1 0)"
proof -
  let ?src = "constant_image h w 1 (0::u8)"
  have "build h w 1 (\<lambda>y x k.
          let above = (uint (px ?src y x 0) > box_mean ?src 11 y x - 2)
          in case THRESH_BINARY_INV of
               THRESH_BINARY \<Rightarrow> if above then sat8 255 else 0
             | THRESH_BINARY_INV \<Rightarrow> if above then 0 else sat8 255)
        = build h w 1 (\<lambda>y x k. 0)"
    using assms by (intro build_cong) (simp add: box_mean_black)
  with assms show ?thesis
    by (simp add: adaptiveThreshold_def build_const)
qed

lemma histogram_black_first:
  "histogram (constant_image h w 1 0) ! 0 = h * w"
proof -
  have "filter (\<lambda>p. unat (p ! 0) = 0) (concat (constant_image h w 1 (0::u8))) =
        concat (constant_image h w 1 0)"
    by (rule filter_True) (auto simp: constant_image_def)
  moreover have "length (concat (constant_image h w 1 (0::u8))) = h * w"
    by (simp add: constant_image_def length_concat sum_list_replicate)
  ultimately show ?thesis
    by (simp add: histogram_def upt_conv_Cons del: upt_Suc)
qed

lemma equalizeHist_black:
  assumes "0 < h" "0 < w"
  shows "equalizeHist (constant_image h w 1 0) = Inr (constant_image h w 1 0)"
proof -
  let ?hist = "histogram (constant_image h w 1 0)"
  have len: "?hist \<noteq> []" by (simp add: histogram_def)
  then obtain n ns where hist: "?hist = n # ns" by (cases ?hist) auto
  with histogram_black_first [of h w] have n: "n = h * w" by simp
  with assms have "n \<noteq> 0" by simp
  with hist have "length (takeWhile (\<lambda>n. n = 0) ?hist) = 0" by simp
  with assms hist n show ?thesis
    by (simp add: equalizeHist_def Let_def build_const)
qed

lemma process_frame_valid:
  assumes "wf_image (pixels (st ! frame))" "img_channels (pixels (st ! frame)) = 3"
  shows "\<exists>r g hl hv t l b e.
           process_frame st frame default_target_size =
             Inr (outputs_at (length st), st @ map fresh [r, g, hl, hv, t, l, b, e]) \<and>
           (\<forall>st'. pixels (st' ! frame) = pixels (st ! frame) \<longrightarrow>
              process_frame st' frame default_target_size =
                Inr (outputs_at (length st'), st' @ map fresh [r, g, hl, hv, t, l, b, e])) \<and>
           has_shape r 380 540 3 \<and> has_shape g 380 540 1 \<and> has_shape hl 380 540 3 \<and>
           has_shape hv 380 540 3 \<and> has_shape t 380 540 1 \<and> has_shape l 380 540 1 \<and>
           has_shape b 380 540 1 \<and> has_shape e 380 540 1"
proof -
  from assms have "has_shape (pixels (st ! frame)) (img_height (pixels (st ! frame)))
      (img_width (pixels (st ! frame))) 3"
    by (simp add: has_shape_def)
  from pipeline_valid [OF this, of 540 380] obtain r g hl hv t lp b e where
    eqs: "resize (pixels (st ! frame)) (540, 380) = Inr r"
      "cvtColor r COLOR_BGR2GRAY = Inr g" "cvtColor r COLOR_BGR2HLS = Inr hl"
      "cvtColor r COLOR_BGR2HSV = Inr hv"
      "adaptiveThreshold g 255 THRESH_BINARY_INV 11 2 = Inr t" "Laplacian g = Inr lp"
      "GaussianBlur g = Inr b" "equalizeHist g = Inr e"
    and shapes: "has_shape r 380 540 3" "has_shape g 380 540 1" "has_shape hl 380 540 3"
      "has_shape hv 380 540 3" "has_shape t 380 540 1"
      "has_shape (convertScaleAbs lp) 380 540 1" "has_shape b 380 540 1"
      "has_shape e 380 540 1"
    by auto
  have "process_frame st' frame default_target_size =
          Inr (outputs_at (length st'),
               st' @ map fresh [r, g, hl, hv, t, convertScaleAbs lp, b, e])"
    if "pixels (st' ! frame) = pixels (st ! frame)" for st'
    unfolding default_target_size_def
    by (rule process_frame_I) (simp_all add: that eqs)
  with shapes show ?thesis by blast
qed

lemma outputs_at_simps [simp]:
  "outputs_at n ''original'' = Some n"
  "outputs_at n ''gray'' = Some (n + 1)"
  "outputs_at n ''hls'' = Some (n + 2)"
  "outputs_at n ''hsv'' = Some (n + 3)"
  "outputs_at n ''thresh'' = Some (n + 4)"
  "outputs_at n ''laplacian'' = Some (n + 5)"
  "outputs_at n ''blur'' = Some (n + 6)"
  "outputs_at n ''equalized'' = Some (n + 7)"
  by (simp_all add: outputs_at_def)

lemma dom_outputs_at [simp]: "dom (outputs_at n) = set output_names"
  by (auto simp: outputs_at_def output_names_def)

lemma nth_fresh_outputs [simp]:
  "(st @ [c0, c1, c2, c3, c4, c5, c6, c7]) ! length st = c0"
  "(st @ [c0, c1, c2, c3, c4, c5, c6, c7]) ! (length st + 1) = c1"
  "(st @ [c0, c1, c2, c3, c4, c5, c6, c7]) ! (length st + 2) = c2"
  "(st @ [c0, c1, c2, c3, c4, c5, c6, c7]) ! (length st + 3) = c3"
  "(st @ [c0, c1, c2, c3, c4, c5, c6, c7]) ! (length st + 4) = c4"
  "(st @ [c0, c1, c2, c3, c4, c5, c6, c7]) ! (length st + 5) = c5"
  "(st @ [c0, c1, c2, c3, c4, c5, c6, c7]) ! (length st + 6) = c6"
  "(st @ [c0, c1, c2, c3, c4, c5, c6, c7]) ! (length st + 7) = c7"
  by (simp_all add: nth_append)

section \<open>The transform pipeline: outputs, shapes and determinism\<close>

text \<open>
  Claim C1. For every well-formed three-channel frame, \<^verbatim>\<open>process_frame\<close> with the default
  target size returns a dictionary whose keys are exactly the eight output names. Each
  output is 540 wide and 380 high; \<open>original\<close>, \<open>hls\<close> and \<open>hsv\<close> have three channels
  and the other five have one. A second call on the same frame, in the store the first
  call left behind, returns eight further arrays, none shared with the first eight, each
  equal to its counterpart from the first call, and leaves the first eight as they were.
\<close>

theorem process_frame_eight_outputs:
  assumes "frame < length st" 
    and "wf_image (pixels (st ! frame))" and "img_channels (pixels (st ! frame)) = 3"
  shows "\<exists>processed st'.
           process_frame st frame default_target_size = Inr (processed, st') \<and>
           dom processed = set output_names \<and>
           (\<forall>name\<in>set output_names. \<exists>a.
              processed name = Some a \<and>
              img_width (pixels (st' ! a)) = 540 \<and> img_height (pixels (st' ! a)) = 380 \<and>
              img_channels (pixels (st' ! a)) =
                (if name \<in> {''original'', ''hls'', ''hsv''} then 3 else 1)) \<and>
           (\<exists>again st''.
              process_frame st' frame default_target_size = Inr (again, st'') \<and>
              dom again = set output_names \<and>
              (\<forall>name\<in>set output_names. \<exists>a b.
                 processed name = Some a \<and> again name = Some b \<and> a \<noteq> b \<and>
                 st'' ! b = st' ! a \<and> st'' ! a = st' ! a))"
proof -
  from process_frame_valid [OF assms(2,3)] obtain r g hl hv t l b e where
    first: "process_frame st frame default_target_size =
       Inr (outputs_at (length st), st @ map fresh [r, g, hl, hv, t, l, b, e])"
    and any: "\<And>st'. pixels (st' ! frame) = pixels (st ! frame) \<Longrightarrow>
       process_frame st' frame default_target_size =
         Inr (outputs_at (length st'), st' @ map fresh [r, g, hl, hv, t, l, b, e])"
    and shapes: "has_shape r 380 540 3" "has_shape g 380 540 1" "has_shape hl 380 540 3"
      "has_shape hv 380 540 3" "has_shape t 380 540 1" "has_shape l 380 540 1"
      "has_shape b 380 540 1" "has_shape e 380 540 1"
    by blast
  let ?st' = "st @ map fresh [r, g, hl, hv, t, l, b, e]"
  let ?st'' = "?st' @ map fresh [r, g, hl, hv, t, l, b, e]"
  from assms(1) have "pixels (?st' ! frame) = pixels (st ! frame)"
    by (simp add: nth_append)
  from any [OF this] have second:
    "process_frame ?st' frame default_target_size = Inr (outputs_at (length ?st'), ?st'')" .
  have dims: "\<forall>name\<in>set output_names. \<exists>a.
              outputs_at (length st) name = Some a \<and>
              img_width (pixels (?st' ! a)) = 540 \<and> img_height (pixels (?st' ! a)) = 380 \<and>
              img_channels (pixels (?st' ! a)) =
                (if name \<in> {''original'', ''hls'', ''hsv''} then 3 else 1)"
    using shapes by (simp add: output_names_def has_shape_def fresh_def nth_append)
  have same: "\<forall>name\<in>set output_names. \<exists>a b.
                 outputs_at (length st) name = Some a \<and>
                 outputs_at (length ?st') name = Some b \<and> a \<noteq> b \<and>
                 ?st'' ! b = ?st' ! a \<and> ?st'' ! a = ?st' ! a"
    by (simp add: output_names_def nth_append)
  from first second dims same show ?thesis
    by (intro exI conjI) (assumption | rule dom_outputs_at)+
qed


theorem process_frame_eight_outputs_witness:
  "(0::nat) < length [fresh (constant_image 2 2 3 7)] \<and>
   wf_image (pixels ([fresh (constant_image 2 2 3 7)] ! 0)) \<and>
   img_channels (pixels ([fresh (constant_image 2 2 3 7)] ! 0)) = 3 \<and>
   (\<exists>processed st'.
      process_frame [fresh (constant_image 2 2 3 7)] 0 default_target_size =
        Inr (processed, st') \<and>
      dom processed = set output_names)"
proof -
  have h: "(0::nat) < length [fresh (constant_image 2 2 3 7)]"
    "wf_image (pixels ([fresh (constant_image 2 2 3 7)] ! 0))"
    "img_channels (pixels ([fresh (constant_image 2 2 3 7)] ! 0)) = 3"
    by (simp_all add: fresh_def)
  from process_frame_eight_outputs [OF h] h show ?thesis by blast
qed

lemma process_frame_black:
  assumes "pixels (st ! frame) = constant_image h w 3 0" "0 < h" "0 < w"
  shows "\<exists>hl hv l b.
           process_frame st frame default_target_size =
             Inr (outputs_at (length st),
                  st @ map fresh [constant_image 380 540 3 0, constant_image 380 540 1 0,
                                  hl, hv, constant_image 380 540 1 0, l, b,
                                  constant_image 380 540 1 0])"
proof -
  let ?r = "constant_image 380 540 3 (0::u8)" and ?g = "constant_image 380 540 1 (0::u8)"
  have r: "resize (pixels (st ! frame)) (540, 380) = Inr ?r"
    unfolding assms(1) by (rule resize_black) (use assms in simp_all)
  have g: "cvtColor ?r COLOR_BGR2GRAY = Inr ?g"
    by (rule cvtColor_gray_black) simp_all
  have t: "adaptiveThreshold ?g 255 THRESH_BINARY_INV 11 2 = Inr ?g"
    by (rule adaptiveThreshold_black) simp_all
  have e: "equalizeHist ?g = Inr ?g"
    by (rule equalizeHist_black) simp_all
  have sr: "has_shape ?r 380 540 3" and sg: "has_shape ?g 380 540 1"
    by (simp_all add: has_shape_def)
  from cvtColor_shape [OF sr, of COLOR_BGR2HLS] obtain hl where
    hl: "cvtColor ?r COLOR_BGR2HLS = Inr hl" by auto
  from cvtColor_shape [OF sr, of COLOR_BGR2HSV] obtain hv where
    hv: "cvtColor ?r COLOR_BGR2HSV = Inr hv" by auto
  from Laplacian_shape [OF sg] obtain lp where lp: "Laplacian ?g = Inr lp" by blast
  from GaussianBlur_shape [OF sg] obtain b where b: "GaussianBlur ?g = Inr b" by blast
  have "process_frame st frame default_target_size =
          Inr (outputs_at (length st),
               st @ map fresh [?r, ?g, hl, hv, ?g, convertScaleAbs lp, b, ?g])"
    unfolding default_target_size_def
    by (rule process_frame_I) (fact r g hl hv t lp b e)+
  then show ?thesis by blast
qed

lemma output_pixels_black:
  assumes "pixels (st ! frame) = constant_image h w 3 0" "0 < h" "0 < w"
  shows "output_pixels st frame default_target_size ''gray'' = Some (constant_image 380 540 1 0)"
    and "output_pixels st frame default_target_size ''thresh'' = Some (constant_image 380 540 1 0)"
    and "output_pixels st frame default_target_size ''equalized'' =
           Some (constant_image 380 540 1 0)"
  using process_frame_black [OF assms]
  by (auto simp: output_pixels_def fresh_def nth_append)

lemma constant_image_neq:
  assumes "0 < h" "0 < w" "0 < c" "u \<noteq> v"
  shows "constant_image h w c u \<noteq> constant_image h w c v"
proof
  assume "constant_image h w c u = constant_image h w c v"
  then have "px (constant_image h w c u) 0 0 0 = px (constant_image h w c v) 0 0 0" by simp
  with assms show False by simp
qed

text \<open>
  Claim C3, as amended. For an all-black three-channel frame of any size the grayscale
  frame is all zero, the \<open>thresh\<close> output is all zero as well, and the \<open>equalized\<close>
  output is the unchanged all-zero frame. A pixel of a uniform region equals the mean of
  its neighbourhood, so it lies above the threshold (the mean minus 2), and the inverted
  threshold gives 0 to a pixel above its threshold.
\<close>

theorem black_frame_thresh_and_equalized:
  assumes "pixels (st ! frame) = constant_image h w 3 0" and "0 < h" and "0 < w"
  shows "output_pixels st frame default_target_size ''thresh'' =
           Some (constant_image 380 540 1 0) \<and>
         output_pixels st frame default_target_size ''gray'' =
           Some (constant_image 380 540 1 0) \<and>
         output_pixels st frame default_target_size ''equalized'' =
           Some (constant_image 380 540 1 0)"
  using output_pixels_black [OF assms] by simp

theorem black_frame_thresh_and_equalized_witness:
  "pixels ([fresh (constant_image 2 2 3 0)] ! 0) = constant_image 2 2 3 0 \<and>
   (0::nat) < 2 \<and>
   output_pixels [fresh (constant_image 2 2 3 0)] 0 default_target_size ''thresh'' =
     Some (constant_image 380 540 1 0) \<and>
   output_pixels [fresh (constant_image 2 2 3 0)] 0 default_target_size ''equalized'' =
     Some (constant_image 380 540 1 0)"
proof -
  have h: "pixels ([fresh (constant_image 2 2 3 0)] ! 0) = constant_image 2 2 3 0"
    by (simp add: fresh_def)
  from black_frame_thresh_and_equalized [OF h, of ] h show ?thesis by simp
qed

text \<open>The claim as stated fails: for a black 2 by 2 frame the \<open>thresh\<close> output is not the
  all-255 frame.\<close>

theorem black_frame_thresh_not_white:
  "output_pixels [fresh (constant_image 2 2 3 0)] 0 default_target_size ''thresh'' \<noteq>
     Some (constant_image 380 540 1 255)"
proof -
  have "pixels ([fresh (constant_image 2 2 3 0)] ! 0) = constant_image 2 2 3 0"
    by (simp add: fresh_def)
  from output_pixels_black(2) [OF this]
  have "output_pixels [fresh (constant_image 2 2 3 0)] 0 default_target_size ''thresh'' =
          Some (constant_image 380 540 1 0)" by simp
  moreover have "constant_image 380 540 1 (0::u8) \<noteq> constant_image 380 540 1 255"
    by (rule constant_image_neq) simp_all
  ultimately show ?thesis by simp
qed

text \<open>A frame whose channel count is neither 3 nor 4 passes the resize and is rejected
  by the first colour conversion.\<close>

lemma process_frame_rejects:
  assumes "wf_image (pixels (st ! frame))" "img_channels (pixels (st ! frame)) = c"
    "c \<noteq> 3" "c \<noteq> 4"
  shows "process_frame st frame default_target_size =
           Inl (CvError ''Invalid number of channels in input image'')"
proof -
  from assms have "has_shape (pixels (st ! frame)) (img_height (pixels (st ! frame)))
      (img_width (pixels (st ! frame))) c"
    by (simp add: has_shape_def)
  from resize_shape [OF this, of 540 380] obtain r where
    r: "resize (pixels (st ! frame)) (540, 380) = Inr r" "has_shape r 380 540 c" by auto
  from cvtColor_rejects [OF r(2) assms(3,4)] r(1) show ?thesis
    by (simp add: process_frame_def default_target_size_def cv2_resize_def cv2_cvtColor_def
        returning_def new_array_def bind_result_def)
qed

text \<open>
  Claim C5, as amended. For every well-formed frame with one channel, \<^verbatim>\<open>process_frame\<close>
  raises the library's error for an invalid number of channels at the grayscale
  conversion, and returns no outputs. The program has no branch on the channel count.
\<close>

theorem single_channel_frame_rejected:
  assumes "wf_image (pixels (st ! frame))" and "img_channels (pixels (st ! frame)) = 1"
  shows "process_frame st frame default_target_size =
           Inl (CvError ''Invalid number of channels in input image'')"
  using process_frame_rejects [OF assms] by simp

theorem single_channel_frame_rejected_witness:
  "wf_image (pixels ([fresh (constant_image 2 2 1 9)] ! 0)) \<and>
   img_channels (pixels ([fresh (constant_image 2 2 1 9)] ! 0)) = 1 \<and>
   process_frame [fresh (constant_image 2 2 1 9)] 0 default_target_size =
     Inl (CvError ''Invalid number of channels in input image'')"
proof -
  have h: "wf_image (pixels ([fresh (constant_image 2 2 1 9)] ! 0))"
    "img_channels (pixels ([fresh (constant_image 2 2 1 9)] ! 0)) = 1"
    by (simp_all add: fresh_def)
  from single_channel_frame_rejected [OF h] h show ?thesis by simp
qed

text \<open>The claim as stated fails: for a one-channel 2 by 2 frame the pipeline does not
  succeed, and there is no \<open>gray\<close> output.\<close>

theorem single_channel_frame_no_gray:
  "output_pixels [fresh (constant_image 2 2 1 9)] 0 default_target_size ''gray'' = None"
proof -
  have "wf_image (pixels ([fresh (constant_image 2 2 1 9)] ! 0))"
    "img_channels (pixels ([fresh (constant_image 2 2 1 9)] ! 0)) = 1"
    by (simp_all add: fresh_def)
  from process_frame_rejects [OF this] show ?thesis
    by (simp add: output_pixels_def)
qed

section \<open>Throughput\<close>


section \<open>Input validation\<close>

lemma check_video_file_exists:
  assumes "path_exists w p"
  shows "\<exists>s'. check_video_file w p s = Inr (video_at w p \<noteq> None, s') \<and>
              n_captures s' = Suc (n_captures s) \<and>
              (\<forall>c. c \<noteq> n_captures s \<longrightarrow> captures s' c = captures s c) \<and>
              \<not> cap_opened (captures s' (n_captures s)) \<and>
              store s' = store s \<and> writers s' = writers s \<and> n_writers s' = n_writers s \<and>
              windows s' = windows s \<and> calls s' = calls s \<and>
              clock_reads s' = clock_reads s \<and> key_polls s' = key_polls s \<and>
              frame_count s' = frame_count s \<and>
              trace s' = trace s @
                (if video_at w p = None
                 then [Capture_created (n_captures s) p, Log_error (Msg_open_failed p)]
                 else [Capture_created (n_captures s) p, Capture_released (n_captures s)])"
  using assms
  by (cases "video_at w p")
     (simp_all add: check_video_file_def os_path_exists_def VideoCapture_def seq_def
       cap_isOpened_def logger_error_def emit_def return_def cap_release_def Let_def)

lemma check_video_file_missing:
  assumes "\<not> path_exists w p"
  shows "check_video_file w p s = Inr (False, s\<lparr>trace := trace s @ [Log_error (Msg_not_exist p)]\<rparr>)"
  using assms
  by (simp add: check_video_file_def os_path_exists_def seq_def logger_error_def emit_def
      return_def)

text \<open>
  Claim C10. For a path that exists, \<^verbatim>\<open>check_video_file\<close> creates one probe capture. When
  the path opens as a video it releases the probe and returns \<^verbatim>\<open>True\<close>; when it does
  not, it logs the failure and returns \<^verbatim>\<open>False\<close>, and the probe it created is never
  released.
\<close>

theorem probe_released_only_when_opened:
  assumes "path_exists w video_path"
  shows "\<exists>s'. check_video_file w video_path s = Inr (video_at w video_path \<noteq> None, s') \<and>
              n_captures s' = Suc (n_captures s) \<and>
              trace s' = trace s @
                (if video_at w video_path = None
                 then [Capture_created (n_captures s) video_path,
                       Log_error (Msg_open_failed video_path)]
                 else [Capture_created (n_captures s) video_path,
                       Capture_released (n_captures s)])"
  using check_video_file_exists [OF assms, of s] by blast

text \<open>An environment in which every path exists and none opens as a video.\<close>

definition no_video_world :: world where
  "no_video_world =
     \<lparr>path_exists = (\<lambda>p. True), video_at = (\<lambda>p. None), clock = (\<lambda>n. 0), keys = (\<lambda>n. - 1),
      faults = (\<lambda>k n. False)\<rparr>"

theorem probe_released_only_when_opened_witness:
  "path_exists no_video_world ''Demo.mp4'' \<and>
   (\<exists>s'. check_video_file no_video_world ''Demo.mp4'' initial_state = Inr (False, s') \<and>
         trace s' = [Capture_created 0 ''Demo.mp4'', Log_error (Msg_open_failed ''Demo.mp4'')])"
proof -
  have h: "path_exists no_video_world ''Demo.mp4''" by (simp add: no_video_world_def)
  have v: "video_at no_video_world ''Demo.mp4'' = None" by (simp add: no_video_world_def)
  have i: "n_captures initial_state = 0" "trace initial_state = []"
    by (simp_all add: initial_state_def)
  from probe_released_only_when_opened [OF h, of initial_state] obtain s' where
    "check_video_file no_video_world ''Demo.mp4'' initial_state = Inr (False, s')"
    "trace s' = [Capture_created 0 ''Demo.mp4'', Log_error (Msg_open_failed ''Demo.mp4'')]"
    unfolding v i by auto
  with h show ?thesis by blast
qed

lemma main_rejected:
  assumes "\<not> path_exists w ''Demo.mp4'' \<or> video_at w ''Demo.mp4'' = None"
  shows "\<exists>s'. main w initial_state = Inr ((), s') \<and>
              trace s' =
                (if \<not> path_exists w ''Demo.mp4'' then [Log_error (Msg_not_exist ''Demo.mp4'')]
                 else [Capture_created 0 ''Demo.mp4'', Log_error (Msg_open_failed ''Demo.mp4'')])
                @ [Printed Line_cannot_access] \<and>
              n_writers s' = 0 \<and> store s' = [] \<and> frame_count s' = 0 \<and>
              calls s' = (\<lambda>k. 0) \<and> windows s' = Map.empty"
proof (cases "path_exists w ''Demo.mp4''")
  case False
  then show ?thesis
    by (simp add: main_def Let_def seq_def check_video_file_missing print_def emit_def
        initial_state_def)
next
  case True
  with assms have none: "video_at w ''Demo.mp4'' = None" by simp
  from check_video_file_exists [OF True, of initial_state] none obtain s1 where
    "check_video_file w ''Demo.mp4'' initial_state = Inr (False, s1)"
    "trace s1 = [Capture_created 0 ''Demo.mp4'', Log_error (Msg_open_failed ''Demo.mp4'')]"
    "n_writers s1 = 0" "store s1 = []" "frame_count s1 = 0" "calls s1 = (\<lambda>k. 0)"
    "windows s1 = Map.empty"
    by (auto simp: initial_state_def)
  with True show ?thesis
    by (simp add: main_def Let_def seq_def print_def emit_def)
qed

text \<open>
  Claim C8. When the input path does not exist or does not open as a video, the run logs
  the reason, prints the error line and ends there: no writer is ever created, no frame
  is decoded or transformed (the store stays empty and the frame counter stays 0), no
  call reaches the decoder, the display or the encoder, and no window is open.
\<close>

theorem inaccessible_input_stops_before_loop:
  assumes "\<not> path_exists w ''Demo.mp4'' \<or> video_at w ''Demo.mp4'' = None"
  shows "trace (run_script w) =
           (if \<not> path_exists w ''Demo.mp4'' then [Log_error (Msg_not_exist ''Demo.mp4'')]
            else [Capture_created 0 ''Demo.mp4'', Log_error (Msg_open_failed ''Demo.mp4'')])
           @ [Printed Line_cannot_access] \<and>
         n_writers (run_script w) = 0 \<and> store (run_script w) = [] \<and>
         frame_count (run_script w) = 0 \<and> calls (run_script w) = (\<lambda>k. 0) \<and>
         windows (run_script w) = Map.empty"
  using main_rejected [OF assms] by (auto simp: run_script_def)

theorem inaccessible_input_stops_before_loop_witness:
  "video_at no_video_world ''Demo.mp4'' = None \<and>
   trace (run_script no_video_world) =
     [Capture_created 0 ''Demo.mp4'', Log_error (Msg_open_failed ''Demo.mp4''),
      Printed Line_cannot_access] \<and>
   n_writers (run_script no_video_world) = 0"
proof -
  have h: "\<not> path_exists no_video_world ''Demo.mp4'' \<or> video_at no_video_world ''Demo.mp4'' = None"
    by (simp add: no_video_world_def)
  from inaccessible_input_stops_before_loop [OF h] show ?thesis
    by (simp add: no_video_world_def)
qed


section \<open>One iteration of the loop\<close>

definition annotated :: "store \<Rightarrow> addr \<Rightarrow> nat \<Rightarrow> int \<Rightarrow> rat \<Rightarrow> store" where
  "annotated st img frames total_frames fps =
     cv2_putText (cv2_putText st img (overlay_at (FrameLabel frames total_frames) (50, 50)))
       img (overlay_at (FpsLabel fps) (50, 100))"

lemma add_text_overlays_outputs:
  "add_text_overlays (outputs_at n) frames total_frames fps s =
     Inr ((), s\<lparr>store := annotated (store s) n frames total_frames fps,
                 trace := trace s @
                   [Text_drawn n (overlay_at (FrameLabel frames total_frames) (50, 50)),
                    Text_drawn n (overlay_at (FpsLabel fps) (50, 100))]\<rparr>)"
  by (simp add: add_text_overlays_def seq_def getitem_def putText_def annotated_def)

definition displayed :: "nat \<Rightarrow> state \<Rightarrow> state" where
  "displayed n s =
     s\<lparr>windows := (windows s)
          (''Original Frame'' \<mapsto> store s ! n,
           ''Grayscale'' \<mapsto> store s ! (n + 1),
           ''HLS Color Space'' \<mapsto> store s ! (n + 2),
           ''HSV Color Space'' \<mapsto> store s ! (n + 3),
           ''Adaptive Threshold'' \<mapsto> store s ! (n + 4),
           ''Laplacian Edge'' \<mapsto> store s ! (n + 5),
           ''Gaussian Blur'' \<mapsto> store s ! (n + 6),
           ''Histogram Equalized'' \<mapsto> store s ! (n + 7)),
        calls := (calls s)(Display := calls s Display + 8),
        trace := trace s @
          [Shown ''Original Frame'' (store s ! n),
           Shown ''Grayscale'' (store s ! (n + 1)),
           Shown ''HLS Color Space'' (store s ! (n + 2)),
           Shown ''HSV Color Space'' (store s ! (n + 3)),
           Shown ''Adaptive Threshold'' (store s ! (n + 4)),
           Shown ''Laplacian Edge'' (store s ! (n + 5)),
           Shown ''Gaussian Blur'' (store s ! (n + 6)),
           Shown ''Histogram Equalized'' (store s ! (n + 7))]\<rparr>"

lemma all_less_8:
  "(\<forall>i<8. P (i::nat)) \<longleftrightarrow> P 0 \<and> P 1 \<and> P 2 \<and> P 3 \<and> P 4 \<and> P 5 \<and> P 6 \<and> P 7"
  by (simp add: eval_nat_numeral All_less_Suc conj_ac)

lemma show_frame_outputs:
  "outputs_at n key = Some a \<Longrightarrow>
   show_frame w winname (outputs_at n) key s =
     (if faults w Display (calls s Display) then Inl (CvError ''imshow'', s)
      else Inr ((), s\<lparr>windows := (windows s)(winname \<mapsto> store s ! a),
                      calls := (calls s)(Display := Suc (calls s Display)),
                      trace := trace s @ [Shown winname (store s ! a)]\<rparr>))"
  by (simp add: show_frame_def seq_def getitem_def cv2_imshow_def attempt_def Let_def)

lemma display_frames_Inr_iff:
  "display_frames w (outputs_at n) s = Inr r \<longleftrightarrow>
     (\<forall>i<8. \<not> faults w Display (calls s Display + i)) \<and> r = ((), displayed n s)"
  unfolding display_frames_def all_less_8
  by (auto simp: seq_def show_frame_outputs displayed_def eval_nat_numeral
      split: sum.splits prod.splits)

text \<open>The key that ends the run: \<^verbatim>\<open>cv2.waitKey(25) & 0xFF == ord('q')\<close>.\<close>

definition interrupted :: "world \<Rightarrow> nat \<Rightarrow> bool" where
  "interrupted w poll \<longleftrightarrow> and (keys w poll) 255 = 113"

definition fps_after :: "world \<Rightarrow> rat \<Rightarrow> state \<Rightarrow> rat" where
  "fps_after w start_time s =
     (let elapsed_time = clock w (clock_reads s) - start_time
      in if elapsed_time > 0 then of_nat (frame_count s + 1) / elapsed_time else 0)"

text \<open>The state in which an iteration that ran to its end leaves the program, given the
  store that \<^verbatim>\<open>process_frame\<close> returned.\<close>

definition iterated :: "world \<Rightarrow> nat \<Rightarrow> int \<Rightarrow> rat \<Rightarrow> store \<Rightarrow> state \<Rightarrow> state" where
  "iterated w out total_frames start_time st1 s =
     (let n = frame_count s + 1;
          orig = length (store s);
          s1 = s\<lparr>frame_count := n, trace := trace s @ [Counter_set n]\<rparr>;
          s2 = s1\<lparr>store := st1, trace := trace s1 @ [Transformed (outputs_at orig)]\<rparr>;
          now = clock w (clock_reads s);
          s3 = s2\<lparr>clock_reads := Suc (clock_reads s), trace := trace s2 @ [Clock_read now]\<rparr>;
          fps = fps_after w start_time s;
          s4 = s3\<lparr>store := annotated st1 orig n total_frames fps,
                  trace := trace s3 @
                    [Text_drawn orig (overlay_at (FrameLabel n total_frames) (50, 50)),
                     Text_drawn orig (overlay_at (FpsLabel fps) (50, 100))]\<rparr>;
          s5 = displayed orig s4;
          img = store s5 ! orig;
          s6 = s5\<lparr>calls := (calls s5)(Encode := Suc (calls s5 Encode)),
                  writers := (writers s5)(out := (writers s5 out)
                               \<lparr>wr_frames := wr_frames (writers s5 out) @ [img]\<rparr>),
                  trace := trace s5 @ [Written out img, Log_info (Msg_processed_frame n)]\<rparr>;
          key = keys w (key_polls s);
          s7 = s6\<lparr>calls := (calls s6)(Display := Suc (calls s6 Display)),
                  key_polls := Suc (key_polls s),
                  trace := trace s6 @ [Key_polled key]\<rparr>
      in if interrupted w (key_polls s)
         then s7\<lparr>trace := trace s7 @ [Log_info Msg_user_interrupted]\<rparr>
         else s7)"

lemma all_less_9:
  "(\<forall>i<9. P (i::nat)) \<longleftrightarrow> (\<forall>i<8. P i) \<and> P 8"
  by (simp add: eval_nat_numeral All_less_Suc conj_ac)

lemma current_fps_Inr:
  "current_fps frames elapsed_time =
     Inr (if elapsed_time > 0 then of_nat frames / elapsed_time else 0)"
  by (simp add: current_fps_def truediv_def)

lemma after_read_outputs:
  assumes "process_frame (store s) fr default_target_size =
             Inr (outputs_at (length (store s)), st1)"
  shows "after_read w out total_frames start_time (Some fr) s = Inr (c, s') \<longleftrightarrow>
           (\<forall>i<9. \<not> faults w Display (calls s Display + i)) \<and>
           \<not> faults w Encode (calls s Encode) \<and>
           s' = iterated w out total_frames start_time st1 s \<and>
           c = (if interrupted w (key_polls s) then Break else Continue)"
  unfolding after_read_def all_less_9
  apply (simp add: seq_Inr_iff increment_frame_count_def call_process_frame_def assms
      time_time_def Let_def lift_def current_fps_Inr add_text_overlays_outputs
      display_frames_Inr_iff getitem_def out_write_def attempt_def logger_info_def emit_def
      cv2_waitKey_def return_def
      cong: conj_cong)
  apply (auto simp: iterated_def Let_def fps_after_def displayed_def interrupted_def)
  done


lemma after_read_Inr:
  assumes "after_read w out total_frames start_time (Some fr) s = Inr (c, s')"
  shows "\<exists>st1. process_frame (store s) fr default_target_size =
                 Inr (outputs_at (length (store s)), st1) \<and>
               (\<forall>i<9. \<not> faults w Display (calls s Display + i)) \<and>
               \<not> faults w Encode (calls s Encode) \<and>
               s' = iterated w out total_frames start_time st1 s \<and>
               c = (if interrupted w (key_polls s) then Break else Continue)"
proof (cases "process_frame (store s) fr default_target_size")
  case (Inl e)
  with assms show ?thesis
    by (simp add: after_read_def seq_def increment_frame_count_def call_process_frame_def)
next
  case (Inr r)
  obtain d st1 where r: "r = (d, st1)" by (cases r)
  from process_frame_Inr [OF Inr [unfolded r]] have "d = outputs_at (length (store s))"
    by blast
  with Inr r have pf: "process_frame (store s) fr default_target_size =
      Inr (outputs_at (length (store s)), st1)" by simp
  from assms [unfolded after_read_outputs [OF pf]] pf show ?thesis by blast
qed

definition no_frame :: "state \<Rightarrow> state" where
  "no_frame s =
     s\<lparr>calls := (calls s)(Decode := Suc (calls s Decode)),
       trace := trace s @ [Frame_read None, Log_info Msg_end_of_video]\<rparr>"

definition decoded :: "nat \<Rightarrow> state \<Rightarrow> state" where
  "decoded cap s =
     s\<lparr>calls := (calls s)(Decode := Suc (calls s Decode)),
       store := store s @ [fresh (hd (cap_pending (captures s cap)))],
       captures := (captures s)
         (cap := (captures s cap)\<lparr>cap_pending := tl (cap_pending (captures s cap))\<rparr>),
       trace := trace s @ [Frame_read (Some (length (store s)))]\<rparr>"

lemma loop_body_Inr_iff:
  "loop_body w cap out total_frames start_time s = Inr (c, s') \<longleftrightarrow>
     \<not> faults w Decode (calls s Decode) \<and>
     (if cap_opened (captures s cap) \<and> cap_pending (captures s cap) \<noteq> []
      then after_read w out total_frames start_time (Some (length (store s))) (decoded cap s) =
             Inr (c, s')
      else c = Break \<and> s' = no_frame s)"
  unfolding loop_body_after_read
  by (cases "cap_pending (captures s cap)")
     (auto simp: seq_Inr_iff cap_read_def attempt_def Let_def new_array_def fresh_def
       logger_info_def emit_def return_def no_frame_def decoded_def)

lemma display_frames_fault:
  assumes "faults w Display (calls s Display)"
  shows "display_frames w (outputs_at n) s = Inl (CvError ''imshow'', s)"
  using assms by (simp add: display_frames_def seq_def show_frame_outputs)

lemma after_read_display_fault:
  assumes "process_frame (store s) fr default_target_size =
             Inr (outputs_at (length (store s)), st1)"
    and "faults w Display (calls s Display)"
  shows "after_read w out total_frames start_time (Some fr) s =
           Inl (CvError ''imshow'',
                s\<lparr>frame_count := frame_count s + 1,
                  store := annotated st1 (length (store s)) (frame_count s + 1) total_frames
                             (fps_after w start_time s),
                  clock_reads := Suc (clock_reads s),
                  trace := trace s @
                    [Counter_set (frame_count s + 1),
                     Transformed (outputs_at (length (store s))),
                     Clock_read (clock w (clock_reads s)),
                     Text_drawn (length (store s))
                       (overlay_at (FrameLabel (frame_count s + 1) total_frames) (50, 50)),
                     Text_drawn (length (store s))
                       (overlay_at (FpsLabel (fps_after w start_time s)) (50, 100))]\<rparr>)"
  using assms
  by (simp add: after_read_def seq_def increment_frame_count_def call_process_frame_def
      time_time_def Let_def lift_def current_fps_Inr add_text_overlays_outputs
      display_frames_fault fps_after_def)

lemma loop_body_display_fault:
  assumes "\<not> faults w Decode (calls s Decode)" "cap_opened (captures s cap)"
    "cap_pending (captures s cap) = img # rest"
    "process_frame (store s @ [fresh img]) (length (store s)) default_target_size =
       Inr (outputs_at (Suc (length (store s))), st1)"
    "faults w Display (calls s Display)"
  shows "loop_body w cap out total_frames start_time s =
           Inl (CvError ''imshow'',
                (decoded cap s)\<lparr>frame_count := frame_count s + 1,
                  store := annotated st1 (Suc (length (store s))) (frame_count s + 1)
                             total_frames (fps_after w start_time s),
                  clock_reads := Suc (clock_reads s),
                  trace := trace s @
                    [Frame_read (Some (length (store s))),
                     Counter_set (frame_count s + 1),
                     Transformed (outputs_at (Suc (length (store s)))),
                     Clock_read (clock w (clock_reads s)),
                     Text_drawn (Suc (length (store s)))
                       (overlay_at (FrameLabel (frame_count s + 1) total_frames) (50, 50)),
                     Text_drawn (Suc (length (store s)))
                       (overlay_at (FpsLabel (fps_after w start_time s)) (50, 100))]\<rparr>)"
proof -
  have rd: "cap_read w cap s = Inr ((True, Some (length (store s))), decoded cap s)"
    using assms(1-3)
    by (simp add: cap_read_def seq_def attempt_def Let_def new_array_def fresh_def decoded_def)
  have pf: "process_frame (store (decoded cap s)) (length (store s)) default_target_size =
      Inr (outputs_at (length (store (decoded cap s))), st1)"
    using assms(3,4) by (simp add: decoded_def)
  have "faults w Display (calls (decoded cap s) Display)"
    using assms(5) by (simp add: decoded_def)
  from after_read_display_fault [OF pf this, of out total_frames start_time] rd show ?thesis
    by (simp add: loop_body_after_read seq_def decoded_def fps_after_def)
qed

lemma annotated_other: "b \<noteq> a \<Longrightarrow> annotated st a n t f ! b = st ! b"
  by (simp add: annotated_def cv2_putText_def)

lemma annotated_target:
  "a < length st \<Longrightarrow>
   annotated st a n t f ! a =
     (st ! a)\<lparr>drawn := drawn (st ! a) @
        [overlay_at (FrameLabel n t) (50, 50), overlay_at (FpsLabel f) (50, 100)]\<rparr>"
  by (simp add: annotated_def cv2_putText_def)

lemma length_annotated [simp]: "length (annotated st a n t f) = length st"
  by (simp add: annotated_def cv2_putText_def)

text \<open>
  Claim C6. The two overlays are drawn on the array that the dictionary holds under
  \<open>original\<close>, and on no other array. Its pixels stay and the two texts are recorded
  on it; each of the seven other outputs is held at a different address, and the array
  at every other address is, after annotation, equal to what it was before.
\<close>

theorem annotation_touches_original_only:
  assumes "process_frame st frame default_target_size = Inr (processed, st')"
  shows "\<exists>s' a. add_text_overlays processed frames total_frames fps (s\<lparr>store := st'\<rparr>) =
                  Inr ((), s') \<and>
                processed ''original'' = Some a \<and>
                pixels (store s' ! a) = pixels (st' ! a) \<and>
                drawn (store s' ! a) =
                  [overlay_at (FrameLabel frames total_frames) (50, 50),
                   overlay_at (FpsLabel fps) (50, 100)] \<and>
                (\<forall>name\<in>set output_names - {''original''}. \<exists>b.
                   processed name = Some b \<and> b \<noteq> a \<and> store s' ! b = st' ! b) \<and>
                (\<forall>b. b \<noteq> a \<longrightarrow> store s' ! b = st' ! b)"
proof -
  from process_frame_Inr [OF assms] obtain r g hl hv t lp b e where
    d: "processed = outputs_at (length st)"
    and st': "st' = st @ map fresh [r, g, hl, hv, t, convertScaleAbs lp, b, e]"
    by blast
  let ?a = "length st"
  let ?s' = "s\<lparr>store := annotated st' ?a frames total_frames fps,
               trace := trace s @
                 [Text_drawn ?a (overlay_at (FrameLabel frames total_frames) (50, 50)),
                  Text_drawn ?a (overlay_at (FpsLabel fps) (50, 100))]\<rparr>"
  have run: "add_text_overlays processed frames total_frames fps (s\<lparr>store := st'\<rparr>) =
      Inr ((), ?s')"
    by (simp add: d add_text_overlays_outputs)
  have lt: "?a < length st'" by (simp add: st')
  have orig: "pixels (store ?s' ! ?a) = pixels (st' ! ?a)"
    "drawn (store ?s' ! ?a) =
       [overlay_at (FrameLabel frames total_frames) (50, 50),
        overlay_at (FpsLabel fps) (50, 100)]"
    using lt by (simp_all add: annotated_target) (simp add: st' fresh_def)
  have others: "\<forall>name\<in>set output_names - {''original''}. \<exists>b.
      processed name = Some b \<and> b \<noteq> ?a \<and> store ?s' ! b = st' ! b"
    by (simp add: d output_names_def annotated_other)
  have rest: "\<forall>b. b \<noteq> ?a \<longrightarrow> store ?s' ! b = st' ! b"
    by (simp add: annotated_other)
  from run orig others rest show ?thesis
    by (intro exI [of _ ?s'] exI [of _ ?a] conjI) (simp_all add: d)
qed

theorem annotation_touches_original_only_witness:
  "\<exists>processed st'.
     process_frame [fresh (constant_image 2 2 3 0)] 0 default_target_size =
       Inr (processed, st') \<and>
     (\<exists>s' a. add_text_overlays processed 1 10 25 (initial_state\<lparr>store := st'\<rparr>) = Inr ((), s') \<and>
             processed ''original'' = Some a \<and>
             (\<exists>b. processed ''gray'' = Some b \<and> b \<noteq> a \<and> store s' ! b = st' ! b))"
proof -
  have "wf_image (pixels ([fresh (constant_image 2 2 3 0)] ! 0))"
    "img_channels (pixels ([fresh (constant_image 2 2 3 0)] ! 0)) = 3"
    by (simp_all add: fresh_def)
  from process_frame_valid [OF this] obtain processed st' where
    pf: "process_frame [fresh (constant_image 2 2 3 0)] 0 default_target_size =
           Inr (processed, st')" by blast
  from annotation_touches_original_only [OF pf, of 1 10 25 initial_state]
  obtain s' a where
    "add_text_overlays processed 1 10 25 (initial_state\<lparr>store := st'\<rparr>) = Inr ((), s')"
    "processed ''original'' = Some a"
    "\<forall>name\<in>set output_names - {''original''}. \<exists>b.
       processed name = Some b \<and> b \<noteq> a \<and> store s' ! b = st' ! b"
    by blast
  moreover from this(3) have "\<exists>b. processed ''gray'' = Some b \<and> b \<noteq> a \<and> store s' ! b = st' ! b"
    by (simp add: output_names_def)
  ultimately show ?thesis using pf by blast
qed


section \<open>A whole run\<close>

text \<open>The state in which \<^verbatim>\<open>main\<close> enters the loop when the input has been accepted, and
  what the statements after the loop do to the state in which the loop ends.\<close>

definition ready :: "world \<Rightarrow> video \<Rightarrow> state" where
  "ready w v =
     \<lparr>store = [],
      captures = (\<lambda>n. \<lparr>cap_opened = False, cap_info = None, cap_pending = []\<rparr>)
        (0 := \<lparr>cap_opened = False, cap_info = Some v, cap_pending = vid_frames v\<rparr>,
         1 := \<lparr>cap_opened = True, cap_info = Some v, cap_pending = vid_frames v\<rparr>),
      n_captures = 2,
      writers = (\<lambda>n. \<lparr>wr_path = [], wr_fourcc = [], wr_fps = 0, wr_size = (0, 0),
                       wr_opened = False, wr_frames = []\<rparr>)
        (0 := \<lparr>wr_path = ''processed_video.mp4'', wr_fourcc = ''mp4v'', wr_fps = vid_fps v,
                wr_size = (540, 380), wr_opened = True, wr_frames = []\<rparr>),
      n_writers = 1,
      windows = Map.empty, calls = (\<lambda>k. 0),
      clock_reads = 1, key_polls = 0, frame_count = 0,
      trace =
        [Capture_created 0 ''Demo.mp4'', Capture_released 0, Capture_created 1 ''Demo.mp4'',
         Log_info (Msg_video_loaded (vid_width v) (vid_height v) (vid_fps v)
                     (vid_frame_count v)),
         Writer_created 0 ''processed_video.mp4'',
         Printed Line_downloading, Slept 10, Printed Line_processing, Slept 15,
         Counter_set 0, Clock_read (clock w 0)]\<rparr>"

definition finished :: "state \<Rightarrow> state" where
  "finished s =
     s\<lparr>captures := (captures s)(1 := (captures s 1)\<lparr>cap_opened := False\<rparr>),
       writers := (writers s)(0 := (writers s 0)\<lparr>wr_opened := False\<rparr>),
       windows := Map.empty,
       trace := trace s @
         [Capture_released 1, Writer_released 0, Windows_destroyed, Log_info Msg_completed,
          Printed (Line_saved_as ''processed_video.mp4'')]\<rparr>"

lemma check_video_file_opens:
  assumes "path_exists w p" "video_at w p = Some v"
  shows "check_video_file w p s =
           Inr (True,
                s\<lparr>captures := (captures s)(n_captures s :=
                     \<lparr>cap_opened = False, cap_info = Some v, cap_pending = vid_frames v\<rparr>),
                  n_captures := Suc (n_captures s),
                  trace := trace s @ [Capture_created (n_captures s) p,
                                      Capture_released (n_captures s)]\<rparr>)"
  using assms
  by (simp add: check_video_file_def os_path_exists_def VideoCapture_def seq_def
      cap_isOpened_def return_def cap_release_def Let_def)

declare main_loop.simps [simp del]

lemma main_accepted:
  assumes "path_exists w ''Demo.mp4''" "video_at w ''Demo.mp4'' = Some v"
  shows "main w initial_state =
           (case main_loop w 1 0 (vid_frame_count v) (clock w 0) (ready w v) of
              Inl es \<Rightarrow> Inl es
            | Inr (u, s) \<Rightarrow> Inr ((), finished s))"
  unfolding main_def Let_def
  by (simp add: assms seq_def check_video_file_opens [OF assms]
      VideoCapture_def cap_get_def logger_info_def emit_def
      initialize_video_writer_def VideoWriter_def print_def time_sleep_def
      reset_frame_count_def time_time_def Let_def cap_release_def out_release_def
      cv2_destroyAllWindows_def initial_state_def ready_def finished_def
      numeral_2_eq_2 cong: sum.case_cong)


lemma iterated_counts [simp]:
  "frame_count (iterated w out t st st1 s) = frame_count s + 1"
  "length (wr_frames (writers (iterated w out t st st1 s) out)) =
     Suc (length (wr_frames (writers s out)))"
  "key_polls (iterated w out t st st1 s) = Suc (key_polls s)"
  "captures (iterated w out t st st1 s) = captures s"
  by (simp_all add: iterated_def Let_def displayed_def)

lemma decoded_fields [simp]:
  "frame_count (decoded cap s) = frame_count s"
  "writers (decoded cap s) = writers s"
  "key_polls (decoded cap s) = key_polls s"
  "cap_opened (captures (decoded cap s) cap) = cap_opened (captures s cap)"
  "cap_pending (captures (decoded cap s) cap) = tl (cap_pending (captures s cap))"
  "store (decoded cap s) = store s @ [fresh (hd (cap_pending (captures s cap)))]"
  by (simp_all add: decoded_def)

lemma no_frame_fields [simp]:
  "frame_count (no_frame s) = frame_count s"
  "writers (no_frame s) = writers s"
  by (simp_all add: no_frame_def)

lemma loop_body_counts:
  assumes "loop_body w cap out t st s = Inr (c, s1)"
  shows "frame_count s1 + length (wr_frames (writers s out)) =
           frame_count s + length (wr_frames (writers s1 out))"
proof (cases "cap_opened (captures s cap) \<and> cap_pending (captures s cap) \<noteq> []")
  case True
  with assms have "after_read w out t st (Some (length (store s))) (decoded cap s) = Inr (c, s1)"
    by (simp add: loop_body_Inr_iff)
  from after_read_Inr [OF this] obtain st1 where
    "s1 = iterated w out t st st1 (decoded cap s)" by blast
  then show ?thesis by simp
next
  case False
  with assms have "s1 = no_frame s" by (auto simp: loop_body_Inr_iff)
  then show ?thesis by simp
qed

lemma main_loop_counts:
  "main_loop w cap out t st s = Inr (u, s') \<Longrightarrow>
   frame_count s' + length (wr_frames (writers s out)) =
     frame_count s + length (wr_frames (writers s' out))"
proof (induction w cap out t st s rule: main_loop.induct)
  case (1 w cap out t st s)
  show ?case
  proof (cases "cap_isOpened s cap")
    case False
    with "1.prems" show ?thesis by (simp add: main_loop.simps)
  next
    case True
    show ?thesis
    proof (cases "loop_body w cap out t st s")
      case (Inl es)
      with True "1.prems" show ?thesis by (simp add: main_loop.simps)
    next
      case (Inr r)
      obtain c s1 where r: "r = (c, s1)" by (cases r)
      note step = loop_body_counts [OF Inr [unfolded r]]
      show ?thesis
      proof (cases c)
        case Break
        with True Inr r "1.prems" have "s' = s1" by (simp add: main_loop.simps)
        with step show ?thesis by simp
      next
        case Continue
        with True Inr r "1.prems" have "main_loop w cap out t st s1 = Inr (u, s')"
          by (simp add: main_loop.simps)
        from "1.IH" [OF _ Inr r [symmetric] Continue this] True step show ?thesis by simp
      qed
    qed
  qed
qed


text \<open>A frame as the decoder delivers it, and an environment in which no call fails.\<close>

definition valid_frame :: "image \<Rightarrow> bool" where
  "valid_frame img \<longleftrightarrow> wf_image img \<and> img_channels img = 3"

definition fault_free :: "world \<Rightarrow> bool" where
  "fault_free w \<longleftrightarrow> (\<forall>k n. \<not> faults w k n)"

text \<open>How many frames a fault-free run works on, given the poll at which it starts and
  the number of frames left: it stops after the frame at which the key is pressed.\<close>

fun frames_processed :: "world \<Rightarrow> nat \<Rightarrow> nat \<Rightarrow> nat" where
  "frames_processed w poll 0 = 0"
| "frames_processed w poll (Suc n) =
     (if interrupted w poll then 1 else Suc (frames_processed w (Suc poll) n))"

lemma frames_processed_all:
  "(\<forall>j<n. \<not> interrupted w (poll + j)) \<Longrightarrow> frames_processed w poll n = n"
proof (induction n arbitrary: poll)
  case 0
  then show ?case by simp
next
  case (Suc n)
  from Suc.prems have "\<not> interrupted w poll" by (metis add.right_neutral zero_less_Suc)
  moreover have "\<forall>j<n. \<not> interrupted w (Suc poll + j)"
    using Suc.prems by (metis Suc_less_eq add_Suc_shift)
  ultimately show ?case using Suc.IH by simp
qed

lemma frames_processed_interrupt:
  "k < n \<Longrightarrow> (\<forall>j<k. \<not> interrupted w (poll + j)) \<Longrightarrow> interrupted w (poll + k) \<Longrightarrow>
   frames_processed w poll n = Suc k"
proof (induction n arbitrary: poll k)
  case 0
  then show ?case by simp
next
  case (Suc n)
  show ?case
  proof (cases k)
    case 0
    with Suc.prems show ?thesis by simp
  next
    case (Suc k')
    with Suc.prems have "\<not> interrupted w poll" by (metis add.right_neutral zero_less_Suc)
    moreover have "k' < n" using Suc Suc.prems by simp
    moreover have "\<forall>j<k'. \<not> interrupted w (Suc poll + j)"
      using Suc Suc.prems by (metis Suc_less_eq add_Suc_shift)
    moreover have "interrupted w (Suc poll + k')" using Suc Suc.prems by simp
    ultimately show ?thesis using Suc.IH [of k' "Suc poll"] Suc by simp
  qed
qed

lemma loop_body_end_of_stream:
  assumes "\<not> faults w Decode (calls s Decode)" "cap_pending (captures s cap) = []"
  shows "loop_body w cap out t st s = Inr (Break, no_frame s)"
  using assms by (simp add: loop_body_Inr_iff)

lemma loop_body_frame:
  assumes "fault_free w" "cap_opened (captures s cap)"
    "cap_pending (captures s cap) = img # rest" "valid_frame img"
  shows "\<exists>st1. process_frame (store s @ [fresh img]) (length (store s)) default_target_size =
                 Inr (outputs_at (Suc (length (store s))), st1) \<and>
               loop_body w cap out t st s =
                 Inr (if interrupted w (key_polls s) then Break else Continue,
                      iterated w out t st st1 (decoded cap s))"
proof -
  have "wf_image (pixels ((store s @ [fresh img]) ! length (store s)))"
    "img_channels (pixels ((store s @ [fresh img]) ! length (store s))) = 3"
    using assms(4) by (simp_all add: valid_frame_def fresh_def)
  from process_frame_valid [OF this] obtain st1 where
    pf: "process_frame (store s @ [fresh img]) (length (store s)) default_target_size =
           Inr (outputs_at (Suc (length (store s))), st1)"
    by auto
  then have pf': "process_frame (store (decoded cap s)) (length (store s)) default_target_size =
      Inr (outputs_at (length (store (decoded cap s))), st1)"
    using assms(3) by simp
  have "loop_body w cap out t st s =
          Inr (if interrupted w (key_polls s) then Break else Continue,
               iterated w out t st st1 (decoded cap s))"
    unfolding loop_body_Inr_iff using assms(1-3)
    by (simp add: after_read_outputs [OF pf'] fault_free_def)
  with pf show ?thesis by blast
qed

lemma main_loop_fault_free:
  assumes "fault_free w" "cap_opened (captures s cap)"
    "list_all valid_frame (cap_pending (captures s cap))"
  shows "\<exists>s'. main_loop w cap out t st s = Inr ((), s') \<and>
              frame_count s' =
                frame_count s +
                frames_processed w (key_polls s) (length (cap_pending (captures s cap)))"
  using assms(2,3)
proof (induction "cap_pending (captures s cap)" arbitrary: s)
  case Nil
  from Nil(1) [symmetric] assms(1) have
    "loop_body w cap out t st s = Inr (Break, no_frame s)"
    by (intro loop_body_end_of_stream) (simp_all add: fault_free_def)
  with Nil show ?case
    by (subst main_loop.simps) (simp add: cap_isOpened_def)
next
  case (Cons img rest)
  from Cons(2) [symmetric] Cons.prems have pend: "cap_pending (captures s cap) = img # rest"
    and valid: "valid_frame img" "list_all valid_frame rest" by simp_all
  from loop_body_frame [OF assms(1) Cons.prems(1) pend valid(1), of out t st] obtain st1 where
    body: "loop_body w cap out t st s =
             Inr (if interrupted w (key_polls s) then Break else Continue,
                  iterated w out t st st1 (decoded cap s))"
    by blast
  let ?s1 = "iterated w out t st st1 (decoded cap s)"
  show ?case
  proof (cases "interrupted w (key_polls s)")
    case True
    with body Cons.prems(1) pend show ?thesis
      by (subst main_loop.simps) (simp add: cap_isOpened_def)
  next
    case False
    have "rest = cap_pending (captures ?s1 cap)" using pend by simp
    moreover have "cap_opened (captures ?s1 cap)" using Cons.prems(1) by simp
    moreover have "list_all valid_frame (cap_pending (captures ?s1 cap))"
      using valid(2) pend by simp
    ultimately obtain s' where
      "main_loop w cap out t st ?s1 = Inr ((), s')"
      "frame_count s' = frame_count ?s1 +
         frames_processed w (key_polls ?s1) (length (cap_pending (captures ?s1 cap)))"
      using Cons(1) [of ?s1] by blast
    with False body Cons.prems(1) pend show ?thesis
      by (subst main_loop.simps) (simp add: cap_isOpened_def)
  qed
qed

end
